theory Spec2Isabelle
  imports Complex_Main "HOL-Library.Char_ord" "HOL-Library.List_Lexorder" "HOL-Library.Sublist"
begin

section \<open>Errors raised by the Python code\<close>

text \<open>
  Every \<^verbatim>\<open>raise\<close> of the sources, and every exception of the Python runtime that the
  modelled statements can throw, is a value of this type.
\<close>

datatype error =
    NotImplementedError
  | ValueError
  | TypeError
  | IndexError
  | KeyError
  | ZeroDivisionError
  | FileExistsError
  | FileNotFoundError
  | NotADirectoryError
  | InvalidArgumentError
  | OSError

section \<open>The transfer-learning model (covid19/models/\_resnet50.py)\<close>

subsection \<open>Layers and their trainable flag\<close>

text \<open>
  A Keras layer, as far as the freeze/unfreeze protocol sees it: its name, its
  \<^verbatim>\<open>trainable\<close> attribute, the names of the variables it owns, and the layers nested
  in it (\<^verbatim>\<open>layer.layers\<close> for a \<^verbatim>\<open>Sequential\<close> or a functional model).
\<close>

datatype layer =
  Layer (lname: string) (trainable: bool) (own_weights: "string list") (layers: "layer list")

text \<open>
  Assigning \<^verbatim>\<open>layer.trainable = v\<close> sets the flag of the layer and of every layer nested in
  it (the Keras setter walks \<^verbatim>\<open>_flatten_layers()\<close>).
\<close>

fun set_trainable :: "bool \<Rightarrow> layer \<Rightarrow> layer" where
  "set_trainable v (Layer n t ws ls) = Layer n v ws (map (set_trainable v) ls)"

text \<open>
  The property \<^verbatim>\<open>layer.trainable_weights\<close>: nothing when the layer is frozen, otherwise its
  own variables followed by those of the nested layers.
\<close>

fun trainable_weights :: "layer \<Rightarrow> string list" where
  "trainable_weights (Layer n t ws ls) =
     (if t then ws @ concat (map trainable_weights ls) else [])"

text \<open>Every flag in the tree of a layer has the given value.\<close>

fun all_flags :: "bool \<Rightarrow> layer \<Rightarrow> bool" where
  "all_flags v (Layer n t ws ls) = (t = v \<and> list_all (all_flags v) ls)"

text \<open>Python's slice \<^verbatim>\<open>xs[:k]\<close>; a negative \<^verbatim>\<open>k\<close> counts from the end.\<close>

definition slice_to :: "'a list \<Rightarrow> int \<Rightarrow> 'a list" where
  "slice_to xs k =
     (if 0 \<le> k then take (nat k) xs else take (length xs - nat (- k)) xs)"

subsection \<open>The class ResNet50\<close>

record resnet50 =
  rn_name :: string
  rn_image_shape :: "nat \<times> nat \<times> nat"
  rn_n_classes :: nat
  rn_from_scratch :: bool
  rn_feature_extractor :: layer
  rn_classifier :: layer

text \<open>
  \<^verbatim>\<open>ResNet50.__init__(n_classes, name, weights)\<close>. The argument \<^verbatim>\<open>weights\<close> is \<^verbatim>\<open>None\<close>,
  \<^verbatim>\<open>'imagenet'\<close> or a path. Two things come from the framework and are parameters here:
  \<^verbatim>\<open>app\<close> is what \<^verbatim>\<open>ResNet50V2(include_top=False, weights=weights_resnet, ...)\<close> returns for
  the given \<^verbatim>\<open>weights_resnet\<close>, and \<^verbatim>\<open>load_ok\<close> tells whether \<^verbatim>\<open>load_weights\<close> succeeds on a
  path. A layer that the constructor itself creates starts with \<^verbatim>\<open>trainable = True\<close>.
\<close>

definition ResNet50 ::
  "(string option \<Rightarrow> layer) \<Rightarrow> (string \<Rightarrow> bool) \<Rightarrow> nat \<Rightarrow> string \<Rightarrow> string option
     \<Rightarrow> error + resnet50" where
  "ResNet50 app load_ok n_classes name weights =
     (let from_scratch = (weights = None);
          load = (weights \<noteq> None \<and> weights \<noteq> Some ''imagenet'');
          weights_resnet = (if load then None else weights);
          feature_extractor =
            Layer ''feature_extractor'' True []
              [Layer ''rescaling'' True [] [], app weights_resnet];
          classifier =
            Layer ''classifier'' True []
              [Layer ''global_average_pooling2d'' True [] [],
               Layer ''dense'' True [''kernel'', ''bias''] []];
          m = \<lparr> rn_name = name, rn_image_shape = (224, 224, 3), rn_n_classes = n_classes,
                rn_from_scratch = from_scratch, rn_feature_extractor = feature_extractor,
                rn_classifier = classifier \<rparr>
      in if load \<and> \<not> load_ok (the weights) then Inl OSError else Inr m)"

text \<open>
  \<^verbatim>\<open>ResNet50.call(inputs, training)\<close>. The result records the one thing the method decides:
  the \<^verbatim>\<open>training\<close> argument with which the feature extractor is invoked,
  \<^verbatim>\<open>False if self._from_scratch else training\<close>. The caller's \<^verbatim>\<open>training\<close> is \<^verbatim>\<open>None\<close>,
  \<^verbatim>\<open>True\<close> or \<^verbatim>\<open>False\<close>.
\<close>

definition rn_call_training :: "resnet50 \<Rightarrow> bool option \<Rightarrow> bool option" where
  "rn_call_training m training = (if rn_from_scratch m then Some False else training)"

text \<open>
  Modelled from the spec: \<^verbatim>\<open>compile_and_fit\<close>, in which \<^verbatim>\<open>fit_linear_classifier\<close> and
  \<^verbatim>\<open>fine_tune\<close> both end, lives in covid19/models/\_model.py, which is not among the
  sources. By the specification it is the shared primitive that runs the optimisation
  loop for the freeze configuration it finds. It is the parameter \<^verbatim>\<open>fit\<close> of the two
  operations, a function of the model as configured, and it leaves the trainable flags
  alone.

  Each operation returns its result together with the model afterwards, so that a raise
  shows the state it leaves behind.
\<close>

definition fit_linear_classifier ::
  "(resnet50 \<Rightarrow> 'h) \<Rightarrow> resnet50 \<Rightarrow> 'h \<times> resnet50" where
  "fit_linear_classifier fit m =
     (let m' = m\<lparr> rn_feature_extractor := set_trainable False (rn_feature_extractor m) \<rparr>
      in (fit m', m'))"

definition freeze_bottom :: "layer \<Rightarrow> int \<Rightarrow> layer" where
  "freeze_bottom fe fine_tune_at =
     (case fe of Layer n t ws ls \<Rightarrow>
        let bottom = slice_to ls fine_tune_at
        in Layer n t ws (map (set_trainable False) bottom @ drop (length bottom) ls))"

definition fine_tune ::
  "(resnet50 \<Rightarrow> 'h) \<Rightarrow> resnet50 \<Rightarrow> int \<Rightarrow> (error + 'h) \<times> resnet50" where
  "fine_tune fit m fine_tune_at =
     (if fine_tune_at > int (length (layers (rn_feature_extractor m)))
      then (Inl ValueError, m)
      else
        let fe = set_trainable True (rn_feature_extractor m);
            m' = m\<lparr> rn_feature_extractor := freeze_bottom fe fine_tune_at \<rparr>
        in (Inr (fit m'), m'))"

text \<open>
  The models a program can hold: one returned by the constructor, then any sequence of
  the two training phases (the model afterwards does not depend on what the fit
  returns, so the result type of \<^verbatim>\<open>fit\<close> is fixed here).
\<close>

inductive reachable :: "resnet50 \<Rightarrow> bool" where
  init: "ResNet50 app load_ok n_classes name weights = Inr m \<Longrightarrow> reachable m"
| linear: "reachable m \<Longrightarrow> reachable (snd (fit_linear_classifier (fit :: resnet50 \<Rightarrow> unit) m))"
| tune: "reachable m \<Longrightarrow> reachable (snd (fine_tune (fit :: resnet50 \<Rightarrow> unit) m k))"

text \<open>
  The pretrained network that the feature extractor wraps, the backbone of the
  specification: the constructor puts it at position 1 of
  \<^verbatim>\<open>self.feature_extractor.layers\<close>, after the rescaling layer.
\<close>

definition rn_backbone :: "resnet50 \<Rightarrow> layer" where
  "rn_backbone m = layers (rn_feature_extractor m) ! 1"

text \<open>
  A backbone for the examples: a stand-in for the network that the framework's
  \<^verbatim>\<open>ResNet50V2\<close> factory returns, with four inner layers (the real one has 190).
\<close>

definition sample_backbone :: "string option \<Rightarrow> layer" where
  "sample_backbone w =
     Layer ''resnet50v2'' True []
       [Layer ''conv1_pad'' True [] [],
        Layer ''conv1_conv'' True [''kernel'', ''bias''] [],
        Layer ''pool1_pool'' True [] [],
        Layer ''post_bn'' True [''gamma'', ''beta''] []]"

definition sample_resnet50 :: resnet50 where
  "sample_resnet50 =
     projr (ResNet50 sample_backbone (\<lambda>_. True) 3 ''resnet50'' (Some ''imagenet''))"

section \<open>The custom network (covid19/models/\_covidnet.py)\<close>

subsection \<open>Tensor shapes\<close>

text \<open>
  The model works on the static shapes of tensors: a dimension is a number or unknown
  (\<^verbatim>\<open>None\<close>, as the batch dimension of a Keras \<^verbatim>\<open>Input\<close>).
\<close>

type_synonym dim = "nat option"
type_synonym shape = "dim list"

datatype padding = Valid | Same

datatype activation = Relu | Softmax

text \<open>
  The layers the file instantiates. \<^verbatim>\<open>Conv2D filters kernel_size stride padding\<close>,
  \<^verbatim>\<open>MaxPool2D pool_size stride padding\<close>, \<^verbatim>\<open>Dense units activation\<close>. The class
  \<^verbatim>\<open>_COVIDNetBlock\<close> keeps its fields: \<^verbatim>\<open>channels\<close>, \<^verbatim>\<open>n_pepx\<close>, \<^verbatim>\<open>_branch_conv\<close>,
  \<^verbatim>\<open>_branch_pepx\<close> and \<^verbatim>\<open>_pooling\<close>.
\<close>

datatype klayer =
    Rescaling
  | Conv2D nat nat nat padding
  | BatchNormalization
  | ReLU
  | MaxPool2D nat nat padding
  | Flatten
  | Dense nat activation
  | PEPXBlock nat
  | Sequential "klayer list"
  | COVIDNetBlock (channels: nat) (n_pepx: nat) (branch_conv: klayer)
      (branch_pepx: "klayer list") (pooling: klayer)

text \<open>
  The framework's output length of a convolution or pooling window along one axis,
  \<^verbatim>\<open>(output_length + stride - 1) // stride\<close>, where \<^verbatim>\<open>output_length\<close> is the input
  length with \<^verbatim>\<open>'same'\<close> padding and \<^verbatim>\<open>input_length - filter_size + 1\<close> with \<^verbatim>\<open>'valid'\<close>
  padding. The division is Python's floor division; a negative result is a dimension
  that the operation refuses.
\<close>

definition conv_output_length :: "dim \<Rightarrow> nat \<Rightarrow> padding \<Rightarrow> nat \<Rightarrow> error + dim" where
  "conv_output_length input_length filter_size pad stride =
     (case input_length of
        None \<Rightarrow> Inr None
      | Some n \<Rightarrow>
          if stride = 0 then Inl ZeroDivisionError
          else
            let output_length =
                  (case pad of
                     Same \<Rightarrow> int n
                   | Valid \<Rightarrow> int n - int filter_size + 1);
                out = (output_length + int stride - 1) div int stride
            in if out < 0 then Inl ValueError else Inr (Some (nat out)))"

definition window_shape :: "nat \<Rightarrow> nat \<Rightarrow> padding \<Rightarrow> dim \<Rightarrow> shape \<Rightarrow> error + shape" where
  "window_shape win stride pad c s =
     (case s of
        [n, h, w, _] \<Rightarrow>
          (case conv_output_length h win pad stride of
             Inl e \<Rightarrow> Inl e
           | Inr h' \<Rightarrow>
               (case conv_output_length w win pad stride of
                  Inl e \<Rightarrow> Inl e
                | Inr w' \<Rightarrow> Inr [n, h', w', c]))
      | _ \<Rightarrow> Inl ValueError)"

text \<open>
  \<^verbatim>\<open>add([x, y])\<close>: the element-wise sum of two tensors of the same rank. Along each axis
  the sizes must agree, a size 1 broadcasts, and an unknown size stays unknown.
\<close>

definition add :: "shape \<Rightarrow> shape \<Rightarrow> error + shape" where
  "add a b =
     (if length a \<noteq> length b then Inl ValueError
      else if list_all2 (\<lambda>i j. i = None \<or> j = None \<or> i = Some 1 \<or> j = Some 1 \<or> i = j) a b
      then Inr (map2 (\<lambda>i j. if i = None \<or> j = None then None
                             else if i = Some 1 then j else i) a b)
      else Inl ValueError)"

text \<open>The product of the dimensions, unknown as soon as one of them is.\<close>

fun flatten_dims :: "shape \<Rightarrow> dim" where
  "flatten_dims [] = Some 1"
| "flatten_dims (d # ds) =
     (case d of
        None \<Rightarrow> None
      | Some n \<Rightarrow> (case flatten_dims ds of None \<Rightarrow> None | Some k \<Rightarrow> Some (n * k)))"

subsection \<open>Calling a layer\<close>

text \<open>
  Modelled from the spec: \<^verbatim>\<open>PEPXBlock\<close> is defined in covid19/layers, which is not among
  the sources. By the specification a PEPX unit preserves the spatial dimensions of its
  input, and its output has the unit's configured number of channels; as a stack of
  convolutions it wants a rank-4 input whose channel count is known.
\<close>

definition pepx_call :: "nat \<Rightarrow> shape \<Rightarrow> error + shape" where
  "pepx_call ch s =
     (case s of
        [n, h, w, c] \<Rightarrow> if c = None then Inl ValueError else Inr [n, h, w, Some ch]
      | _ \<Rightarrow> Inl ValueError)"

text \<open>
  The output shape of each layer on an input shape, or the error the layer raises.
  \<^verbatim>\<open>pepx_loop\<close> is the loop of \<^verbatim>\<open>_COVIDNetBlock.call\<close>: for each PEPX unit in turn,
  \<^verbatim>\<open>x = unit(x)\<close> and then \<^verbatim>\<open>x = add([x, branch_conv_output])\<close>; the block starts the
  loop at \<^verbatim>\<open>x = inputs\<close> and returns \<^verbatim>\<open>self._pooling(x)\<close>.
\<close>

fun layer_call :: "klayer \<Rightarrow> shape \<Rightarrow> error + shape"
  and sequential_call :: "klayer list \<Rightarrow> shape \<Rightarrow> error + shape"
  and pepx_loop :: "klayer list \<Rightarrow> shape \<Rightarrow> shape \<Rightarrow> error + shape" where
  "layer_call Rescaling s = Inr s"
| "layer_call (Conv2D filters kernel_size stride pad) s =
     (case s of
        [n, h, w, c] \<Rightarrow>
          if c = None then Inl ValueError
          else window_shape kernel_size stride pad (Some filters) s
      | _ \<Rightarrow> Inl ValueError)"
| "layer_call BatchNormalization s = Inr s"
| "layer_call ReLU s = Inr s"
| "layer_call (MaxPool2D pool_size stride pad) s =
     (case s of
        [n, h, w, c] \<Rightarrow> window_shape pool_size stride pad c s
      | _ \<Rightarrow> Inl ValueError)"
| "layer_call Flatten s =
     (case s of [] \<Rightarrow> Inl ValueError | n # ds \<Rightarrow> Inr [n, flatten_dims ds])"
| "layer_call (Dense units act) s =
     (if s = [] \<or> last s = None then Inl ValueError else Inr (butlast s @ [Some units]))"
| "layer_call (PEPXBlock ch) s = pepx_call ch s"
| "layer_call (Sequential ls) s = sequential_call ls s"
| "layer_call (COVIDNetBlock ch k bc bp pool) inputs =
     (case layer_call bc inputs of
        Inl e \<Rightarrow> Inl e
      | Inr branch_conv_output \<Rightarrow>
          (case pepx_loop bp branch_conv_output inputs of
             Inl e \<Rightarrow> Inl e
           | Inr x \<Rightarrow> layer_call pool x))"
| "sequential_call [] s = Inr s"
| "sequential_call (l # ls) s =
     (case layer_call l s of Inl e \<Rightarrow> Inl e | Inr s' \<Rightarrow> sequential_call ls s')"
| "pepx_loop [] branch_conv_output x = Inr x"
| "pepx_loop (p # ps) branch_conv_output x =
     (case layer_call p x of
        Inl e \<Rightarrow> Inl e
      | Inr x1 \<Rightarrow>
          (case add x1 branch_conv_output of
             Inl e \<Rightarrow> Inl e
           | Inr x2 \<Rightarrow> pepx_loop ps branch_conv_output x2))"

text \<open>\<^verbatim>\<open>_COVIDNetBlock.__init__(channels, n_pepx)\<close>.\<close>

definition COVIDNetBlock_init :: "nat \<Rightarrow> nat \<Rightarrow> klayer" where
  "COVIDNetBlock_init ch k =
     COVIDNetBlock ch k
       (Sequential [Conv2D ch 1 1 Valid, BatchNormalization, ReLU])
       (replicate k (PEPXBlock ch))
       (MaxPool2D 3 2 Same)"

subsection \<open>The class COVIDNet\<close>

record covidnet =
  cn_name :: string
  cn_image_shape :: "nat \<times> nat \<times> nat"
  cn_from_scratch :: bool
  cn_feature_extractor :: klayer
  cn_classifier :: klayer

text \<open>
  \<^verbatim>\<open>tf.reshape(inputs, (-1,) + image_shape)\<close>: the batch dimension is what is left of the
  element count, which the image size must divide; it is unknown when the input's
  element count is.
\<close>

definition tf_reshape :: "shape \<Rightarrow> nat \<times> nat \<times> nat \<Rightarrow> error + shape" where
  "tf_reshape s image_shape =
     (case image_shape of (h, w, c) \<Rightarrow>
        (case flatten_dims s of
           None \<Rightarrow> Inr [None, Some h, Some w, Some c]
         | Some count \<Rightarrow>
             if h * w * c = 0 \<or> count mod (h * w * c) \<noteq> 0 then Inl InvalidArgumentError
             else Inr [Some (count div (h * w * c)), Some h, Some w, Some c]))"

text \<open>
  \<^verbatim>\<open>COVIDNet.call(inputs, training)\<close>: the output shape, and the \<^verbatim>\<open>training\<close> argument
  with which the feature extractor is invoked, \<^verbatim>\<open>self._from_scratch\<close>.
\<close>

definition cn_call_training :: "covidnet \<Rightarrow> bool option \<Rightarrow> bool option" where
  "cn_call_training m training = Some (cn_from_scratch m)"

definition cn_call :: "covidnet \<Rightarrow> shape \<Rightarrow> error + shape" where
  "cn_call m inputs =
     (case tf_reshape inputs (cn_image_shape m) of
        Inl e \<Rightarrow> Inl e
      | Inr x \<Rightarrow>
          (case layer_call (cn_feature_extractor m) x of
             Inl e \<Rightarrow> Inl e
           | Inr x' \<Rightarrow> layer_call (cn_classifier m) x'))"

text \<open>
  \<^verbatim>\<open>COVIDNet.__init__(name='covidnet', weights='imagenet')\<close>. There is no class-count
  parameter. After the layers are built the constructor runs \<^verbatim>\<open>self.call\<close> once on a
  symbolic input of shape \<^verbatim>\<open>(None, 224, 224, 3)\<close>. Of the framework's constructors and of
  its \<^verbatim>\<open>build\<close> the model keeps the shapes; they are taken to succeed otherwise.
\<close>

definition COVIDNet :: "string \<Rightarrow> string option \<Rightarrow> error + covidnet" where
  "COVIDNet name weights =
     (if weights \<noteq> None then Inl NotImplementedError
      else
        let initial_conv = Sequential [Conv2D 64 7 2 Same, BatchNormalization, ReLU];
            feature_extractor = Sequential
              [Rescaling, initial_conv,
               COVIDNetBlock_init 256 3, COVIDNetBlock_init 512 4,
               COVIDNetBlock_init 1024 5, COVIDNetBlock_init 2048 3];
            classifier = Sequential
              [Flatten, Dense 1024 Relu, Dense 1024 Relu, Dense 3 Softmax];
            m = \<lparr> cn_name = name, cn_image_shape = (224, 224, 3),
                  cn_from_scratch = (weights = None),
                  cn_feature_extractor = feature_extractor, cn_classifier = classifier \<rparr>
        in (case cn_call m [None, Some 224, Some 224, Some 3] of
              Inl e \<Rightarrow> Inl e
            | Inr outputs \<Rightarrow> Inr m))"

text \<open>
  The activation of a dense layer on one row of pre-activations, over the real numbers
  (the framework computes it in 32-bit floating point).
\<close>

definition softmax :: "real list \<Rightarrow> real list" where
  "softmax z = map (\<lambda>x. exp x / sum_list (map exp z)) z"

fun apply_activation :: "activation \<Rightarrow> real list \<Rightarrow> real list" where
  "apply_activation Relu z = map (max 0) z"
| "apply_activation Softmax z = softmax z"

section \<open>Class weights (scripts/pretrain.py)\<close>

text \<open>
  The dictionary \<^verbatim>\<open>train_ds_info\<close>: \<^verbatim>\<open>n_images\<close>, \<^verbatim>\<open>n_classes\<close>, the dictionary
  \<^verbatim>\<open>class_labels\<close> from class name to label in its order of insertion, and the array
  \<^verbatim>\<open>labels\<close> with the label of every sample.
\<close>

record ds_info =
  n_images :: int
  n_classes :: int
  class_labels :: "(string \<times> int) list"
  labels :: "int list"

text \<open>
  \<^verbatim>\<open>get_class_weights\<close>. \<^verbatim>\<open>n\<close> is \<^verbatim>\<open>len(np.where(labels == class_label)[0])\<close>, and the
  weight is \<^verbatim>\<open>(1 / n) * (total / n_classes)\<close>: either division raises on a zero divisor.
  Python computes the weight in floating point; the model computes it exactly, in the
  rationals.
\<close>

fun class_weights_loop ::
  "ds_info \<Rightarrow> (string \<times> int) list \<Rightarrow> (int \<rightharpoonup> rat) \<Rightarrow> error + (int \<rightharpoonup> rat)" where
  "class_weights_loop info [] class_weights = Inr class_weights"
| "class_weights_loop info ((class_name, class_label) # rest) class_weights =
     (let n = int (length (filter (\<lambda>l. l = class_label) (labels info)))
      in if n = 0 then Inl ZeroDivisionError
         else if n_classes info = 0 then Inl ZeroDivisionError
         else class_weights_loop info rest
                (class_weights(class_label \<mapsto>
                   (1 / of_int n) * (of_int (n_images info) / of_int (n_classes info)))))"

definition get_class_weights :: "ds_info \<Rightarrow> error + (int \<rightharpoonup> rat)" where
  "get_class_weights train_ds_info =
     class_weights_loop train_ds_info (class_labels train_ds_info) Map.empty"

text \<open>The number of samples of a class, the \<^verbatim>\<open>c_i\<close> of the specification.\<close>

definition class_count :: "ds_info \<Rightarrow> int \<Rightarrow> nat" where
  "class_count info class_label = length (filter (\<lambda>l. l = class_label) (labels info))"

text \<open>
  The weight the specification states for a class with label \<^verbatim>\<open>l\<close>: \<^verbatim>\<open>(1/c) * (T/k)\<close> for
  its sample count \<^verbatim>\<open>c\<close>, the dataset's \<^verbatim>\<open>n_images\<close> as \<^verbatim>\<open>T\<close> and its \<^verbatim>\<open>n_classes\<close>
  as \<^verbatim>\<open>k\<close>.
\<close>

definition class_weight :: "ds_info \<Rightarrow> int \<Rightarrow> rat" where
  "class_weight info l =
     (1 / of_nat (class_count info l)) * (of_int (n_images info) / of_int (n_classes info))"

text \<open>The toy dataset of the specification: 10, 100 and 50 samples of three classes.\<close>

definition toy_info :: ds_info where
  "toy_info =
     \<lparr> n_images = 160, n_classes = 3,
       class_labels = [(''covid-19'', 0), (''normal'', 1), (''pneumonia'', 2)],
       labels = replicate 10 0 @ replicate 100 1 @ replicate 50 2 \<rparr>"

section \<open>Output directories (scripts/pretrain.py, main)\<close>

text \<open>
  A path is the list of its components below the working directory, and the file system
  maps the paths that exist to what is there. The working directory itself, the empty
  path, is a directory.
\<close>

type_synonym path = "string list"

datatype node = Dir | File

type_synonym fs = "path \<rightharpoonup> node"

definition is_dir :: "fs \<Rightarrow> path \<Rightarrow> bool" where
  "is_dir fs p = (p = [] \<or> fs p = Some Dir)"

text \<open>
  \<^verbatim>\<open>os.mkdir\<close>: the parent must be a directory, and nothing may be at the path.
\<close>

definition os_mkdir :: "fs \<Rightarrow> path \<Rightarrow> error + fs" where
  "os_mkdir fs p =
     (if p = [] then Inl FileExistsError
      else if \<not> is_dir fs (butlast p) then
        (if fs (butlast p) = Some File then Inl NotADirectoryError else Inl FileNotFoundError)
      else if fs p \<noteq> None then Inl FileExistsError
      else Inr (fs(p \<mapsto> Dir)))"

text \<open>
  \<^verbatim>\<open>pathlib.Path.mkdir(parents, exist_ok)\<close>: on \<^verbatim>\<open>FileNotFoundError\<close> with \<^verbatim>\<open>parents\<close> it
  creates the parent (with \<^verbatim>\<open>parents=True, exist_ok=True\<close>) and tries once more; any other
  error is swallowed only with \<^verbatim>\<open>exist_ok\<close> when the path is a directory. The file system
  afterwards is returned also when the call raises.
\<close>

function path_mkdir :: "fs \<Rightarrow> path \<Rightarrow> bool \<Rightarrow> bool \<Rightarrow> error option \<times> fs" where
  "path_mkdir fs p parents exist_ok =
     (case os_mkdir fs p of
        Inr fs' \<Rightarrow> (None, fs')
      | Inl e \<Rightarrow>
          if e = FileNotFoundError then
            (if \<not> parents \<or> butlast p = p then (Some e, fs)
             else (case path_mkdir fs (butlast p) True True of
                     (Some e', fs') \<Rightarrow> (Some e', fs')
                   | (None, fs') \<Rightarrow> path_mkdir fs' p False exist_ok))
          else if \<not> exist_ok \<or> \<not> is_dir fs p then (Some e, fs)
          else (None, fs))"
  by pat_completeness auto
termination
  by (relation "measures [\<lambda>(fs, p, parents, exist_ok). length p,
                           \<lambda>(fs, p, parents, exist_ok). if parents then 1 else 0]")
     (auto simp: butlast_conv_take)

record train_paths =
  logs_path :: path
  checkpoints_path :: path
  plots_path :: path
  models_path :: path

text \<open>
  The block \<^verbatim>\<open># prepare paths\<close> of \<^verbatim>\<open>main\<close>, from the parsed argument \<^verbatim>\<open>args.model\<close>:
  the check \<^verbatim>\<open>models_path.is_dir()\<close>, then the three \<^verbatim>\<open>mkdir\<close> calls.
\<close>

definition prepare_paths :: "fs \<Rightarrow> path \<Rightarrow> (error + train_paths) \<times> fs" where
  "prepare_paths fs model_arg =
     (if is_dir fs model_arg then (Inl FileExistsError, fs)
      else
        let paths = \<lparr> logs_path = model_arg @ [''logs''],
                        checkpoints_path = model_arg @ [''checkpoints''],
                        plots_path = model_arg @ [''training''],
                        models_path = model_arg @ [''models''] \<rparr>
        in (case path_mkdir fs (models_path paths) True False of
              (Some e, fs1) \<Rightarrow> (Inl e, fs1)
            | (None, fs1) \<Rightarrow>
                (case path_mkdir fs1 (checkpoints_path paths) False False of
                   (Some e, fs2) \<Rightarrow> (Inl e, fs2)
                 | (None, fs2) \<Rightarrow>
                     (case path_mkdir fs2 (plots_path paths) False False of
                        (Some e, fs3) \<Rightarrow> (Inl e, fs3)
                      | (None, fs3) \<Rightarrow> (Inr paths, fs3)))))"

text \<open>
  \<^verbatim>\<open>main\<close>: the path preparation, and then everything that follows it (the input
  pipeline, the training, the plots and the saved weights) as the parameter \<^verbatim>\<open>train\<close>,
  which receives the paths and the file system the preparation leaves.
\<close>

definition pretrain_main ::
  "(train_paths \<Rightarrow> fs \<Rightarrow> (error + 'r) \<times> fs) \<Rightarrow> fs \<Rightarrow> path \<Rightarrow> (error + 'r) \<times> fs" where
  "pretrain_main train fs model_arg =
     (case prepare_paths fs model_arg of
        (Inl e, fs') \<Rightarrow> (Inl e, fs')
      | (Inr paths, fs') \<Rightarrow> train paths fs')"

text \<open>
  A file system is well formed when every path that exists lies in a directory. A
  path is free when nothing is at it and no regular file is above it.
\<close>

definition wf_fs :: "fs \<Rightarrow> bool" where
  "wf_fs fs = (\<forall>p. fs p \<noteq> None \<longrightarrow> p \<noteq> [] \<and> is_dir fs (butlast p))"

definition no_file_above :: "fs \<Rightarrow> path \<Rightarrow> bool" where
  "no_file_above fs p = (\<forall>k \<le> length p. fs (take k p) \<noteq> Some File)"

text \<open>
  The file system with a directory added at every path down to \<^verbatim>\<open>q\<close> where nothing was.
\<close>

definition with_parents :: "fs \<Rightarrow> path \<Rightarrow> fs" where
  "with_parents fs q =
     (\<lambda>r. if r \<noteq> [] \<and> prefix r q \<and> fs r = None then Some Dir else fs r)"

section \<open>Learning curves (covid19/metrics/training.py)\<close>

text \<open>
  A Keras \<^verbatim>\<open>History\<close> object has the list \<^verbatim>\<open>epoch\<close> and the dictionary \<^verbatim>\<open>history\<close> from
  metric name to a list of values. The lists are objects that \<^verbatim>\<open>+=\<close> changes in place,
  so the dictionary holds their addresses and a store holds their contents.
\<close>

type_synonym addr = nat

type_synonym 'v store = "addr \<Rightarrow> 'v list"

record keras_history =
  epoch :: "int list"
  history :: "(string \<times> addr) list"

text \<open>What one figure shows: the label, the two curves, the marker and the file.\<close>

record 'v figure =
  fig_ylabel :: string
  fig_training :: "'v list"
  fig_validation :: "'v list"
  fig_start_fine_tuning :: "int option"
  fig_saved :: "path option"

definition startswith :: "string \<Rightarrow> string \<Rightarrow> bool" where
  "startswith s pre = (take (length pre) s = pre)"

definition dict_get :: "(string \<times> 'a) list \<Rightarrow> string \<Rightarrow> error + 'a" where
  "dict_get d k = (case map_of d k of None \<Rightarrow> Inl KeyError | Some v \<Rightarrow> Inr v)"

text \<open>Line 21, \<^verbatim>\<open>val_metric = 'val_' + metric\<close>.\<close>

definition val_metric :: "string \<Rightarrow> string" where
  "val_metric metric = ''val_'' @ metric"

text \<open>
  Lines 24 to 26: with a \<^verbatim>\<open>history_ft\<close>, \<^verbatim>\<open>train_values += history_ft.history[metric]\<close> and
  \<^verbatim>\<open>val_values += history_ft.history[val_metric]\<close>, on the list objects that
  \<^verbatim>\<open>train_values\<close> and \<^verbatim>\<open>val_values\<close> name.
\<close>

definition extend_with_ft ::
  "keras_history option \<Rightarrow> string \<Rightarrow> addr \<Rightarrow> addr \<Rightarrow> 'v store \<Rightarrow> error option \<times> 'v store" where
  "extend_with_ft history_ft metric train_values val_values st =
     (case history_ft of
        None \<Rightarrow> (None, st)
      | Some ft \<Rightarrow>
          (case dict_get (history ft) metric of
             Inl e \<Rightarrow> (Some e, st)
           | Inr a \<Rightarrow>
               let st1 = st(train_values := st train_values @ st a)
               in (case dict_get (history ft) (val_metric metric) of
                     Inl e \<Rightarrow> (Some e, st1)
                   | Inr b \<Rightarrow> (None, st1(val_values := st1 val_values @ st1 b)))))"

text \<open>The body of the loop for a metric that is not a validation metric.\<close>

definition plot_metric ::
  "keras_history \<Rightarrow> keras_history option \<Rightarrow> path \<Rightarrow> int \<Rightarrow> string
     \<Rightarrow> 'v store \<times> 'v figure list \<Rightarrow> error option \<times> 'v store \<times> 'v figure list" where
  "plot_metric h history_ft save_path epochs metric state =
     (case state of (st, figs) \<Rightarrow>
        (case dict_get (history h) metric of
           Inl e \<Rightarrow> (Some e, st, figs)
         | Inr train_values \<Rightarrow>
             (case dict_get (history h) (val_metric metric) of
                Inl e \<Rightarrow> (Some e, st, figs)
              | Inr val_values \<Rightarrow>
                  (case extend_with_ft history_ft metric train_values val_values st of
                     (Some e, st') \<Rightarrow> (Some e, st', figs)
                   | (None, st') \<Rightarrow>
                       (None, st',
                        figs @ [\<lparr> fig_ylabel = metric,
                                   fig_training = st' train_values,
                                   fig_validation = st' val_values,
                                   fig_start_fine_tuning =
                                     (if history_ft \<noteq> None then Some epochs else None),
                                   fig_saved = Some (save_path @ [metric @ ''.png'']) \<rparr>])))))"

fun plot_loop ::
  "keras_history \<Rightarrow> keras_history option \<Rightarrow> path \<Rightarrow> int \<Rightarrow> string list
     \<Rightarrow> 'v store \<times> 'v figure list \<Rightarrow> error option \<times> 'v store \<times> 'v figure list" where
  "plot_loop h history_ft save_path epochs [] state = (None, state)"
| "plot_loop h history_ft save_path epochs (metric # rest) state =
     (if startswith metric ''val_'' then plot_loop h history_ft save_path epochs rest state
      else (case plot_metric h history_ft save_path epochs metric state of
              (Some e, state') \<Rightarrow> (Some e, state')
            | (None, state') \<Rightarrow> plot_loop h history_ft save_path epochs rest state'))"

text \<open>
  \<^verbatim>\<open>plot_learning_curves(history, history_ft=None, save_path=None)\<close>. The first statement
  is \<^verbatim>\<open>save_path = Path(save_path)\<close>, which raises \<^verbatim>\<open>TypeError\<close> on \<^verbatim>\<open>None\<close>; the second
  reads \<^verbatim>\<open>history.epoch[-1]\<close>. The result is the error raised, if any, with the store
  and the figures drawn up to then.
\<close>

definition plot_learning_curves ::
  "'v store \<Rightarrow> keras_history \<Rightarrow> keras_history option \<Rightarrow> path option
     \<Rightarrow> error option \<times> 'v store \<times> 'v figure list" where
  "plot_learning_curves st h history_ft save_path =
     (case save_path of
        None \<Rightarrow> (Some TypeError, st, [])
      | Some sp \<Rightarrow>
          if epoch h = [] then (Some IndexError, st, [])
          else plot_loop h history_ft sp (last (epoch h)) (map fst (history h)) (st, []))"

text \<open>
  The list that a metric of a history names, and the metrics the loop works on.
\<close>

definition values_of :: "'v store \<Rightarrow> keras_history \<Rightarrow> string \<Rightarrow> 'v list" where
  "values_of st h metric = (case map_of (history h) metric of None \<Rightarrow> [] | Some a \<Rightarrow> st a)"

definition plotted_metrics :: "keras_history \<Rightarrow> string list" where
  "plotted_metrics h = filter (\<lambda>k. \<not> startswith k ''val_'') (map fst (history h))"

text \<open>
  The address a history's dictionary holds for a metric, and the addresses of the lists
  that the loop works on for a list of metrics.
\<close>

definition addr_of :: "keras_history \<Rightarrow> string \<Rightarrow> addr" where
  "addr_of h k = (case map_of (history h) k of None \<Rightarrow> 0 | Some a \<Rightarrow> a)"

definition touched :: "keras_history \<Rightarrow> string list \<Rightarrow> addr set" where
  "touched h ks =
     {a. \<exists>m \<in> set ks. \<not> startswith m ''val_''
           \<and> (a = addr_of h m \<or> a = addr_of h (val_metric m))}"

text \<open>
  The histories cover a list of metrics when every one of them that is not a validation
  metric is a key of both dictionaries, together with its validation metric.
\<close>

definition covered :: "keras_history \<Rightarrow> keras_history \<Rightarrow> string list \<Rightarrow> bool" where
  "covered h ft ks =
     (\<forall>m \<in> set ks. \<not> startswith m ''val_'' \<longrightarrow>
        m \<in> dom (map_of (history h)) \<and> val_metric m \<in> dom (map_of (history h))
        \<and> m \<in> dom (map_of (history ft)) \<and> val_metric m \<in> dom (map_of (history ft)))"

text \<open>
  Two histories for the examples: two epochs of training and one epoch of fine-tuning,
  each with a loss and a validation loss, in four different lists.
\<close>

definition sample_store :: "int store" where
  "sample_store = (\<lambda>_. [])(0 := [1, 2], 1 := [3, 4], 2 := [5], 3 := [6])"

definition sample_history :: keras_history where
  "sample_history = \<lparr> epoch = [0, 1], history = [(''loss'', 0), (''val_loss'', 1)] \<rparr>"

definition sample_history_ft :: keras_history where
  "sample_history_ft = \<lparr> epoch = [0, 1, 2], history = [(''loss'', 2), (''val_loss'', 3)] \<rparr>"

section \<open>Class names (train.py, scripts/evaluate.py)\<close>

fun map_result :: "('a \<Rightarrow> error + 'b) \<Rightarrow> 'a list \<Rightarrow> error + 'b list" where
  "map_result f [] = Inr []"
| "map_result f (x # xs) =
     (case f x of
        Inl e \<Rightarrow> Inl e
      | Inr y \<Rightarrow> (case map_result f xs of Inl e \<Rightarrow> Inl e | Inr ys \<Rightarrow> Inr (y # ys)))"

record data_stats =
  target_names :: "string list"
  num_train :: "nat list"
  num_test :: "nat list"
  tot_train :: nat
  tot_test :: nat

text \<open>
  Section 1 of train.py, lines 82 to 91. \<^verbatim>\<open>listdir\<close> is \<^verbatim>\<open>os.listdir\<close>: the entries of
  a directory in the order the operating system returns them, or the error raised.
\<close>

definition examine_data :: "(path \<Rightarrow> error + string list) \<Rightarrow> path \<Rightarrow> error + data_stats" where
  "examine_data listdir data_dir =
     (let train_dir = data_dir @ [''train''];
          test_dir = data_dir @ [''test'']
      in (case listdir train_dir of
            Inl e \<Rightarrow> Inl e
          | Inr l1 \<Rightarrow>
         (case listdir test_dir of
            Inl e \<Rightarrow> Inl e
          | Inr l2 \<Rightarrow>
         (case listdir train_dir of
            Inl e \<Rightarrow> Inl e
          | Inr l3 \<Rightarrow>
         (let train_dirs = map (\<lambda>x. data_dir @ [''train'', x]) l1;
              test_dirs = map (\<lambda>x. data_dir @ [''test'', x]) l2
          in (case map_result (\<lambda>x. map_sum id length (listdir x)) train_dirs of
                Inl e \<Rightarrow> Inl e
              | Inr n_train \<Rightarrow>
             (case map_result (\<lambda>x. map_sum id length (listdir x)) test_dirs of
                Inl e \<Rightarrow> Inl e
              | Inr n_test \<Rightarrow>
                  Inr \<lparr> target_names = l3, num_train = n_train, num_test = n_test,
                        tot_train = sum_list n_train, tot_test = sum_list n_test \<rparr>)))))))"

text \<open>
  The index a list of names gives each name: its position. The bar chart of train.py
  puts \<^verbatim>\<open>num_train[i]\<close> and \<^verbatim>\<open>num_test[i]\<close> under the label \<^verbatim>\<open>target_names[i]\<close>.
\<close>

definition name_to_index :: "string list \<Rightarrow> (string \<times> nat) list" where
  "name_to_index names = zip names [0 ..< length names]"

text \<open>
  scripts/evaluate.py, \<^verbatim>\<open>class_names = sorted(test_ds.class_indices.keys())\<close>.
\<close>

definition evaluate_class_names :: "(string \<times> nat) list \<Rightarrow> string list" where
  "evaluate_class_names class_indices = sort (map fst class_indices)"

text \<open>
  A directory tree for the examples: the two splits list the same two classes in
  different orders.
\<close>

definition sample_listdir :: "path \<Rightarrow> error + string list" where
  "sample_listdir p =
     (if p = [''data'', ''train''] then Inr [''normal'', ''covid-19'']
      else if p = [''data'', ''test''] then Inr [''covid-19'', ''normal'']
      else if p = [''data'', ''train'', ''normal''] then Inr [''a.png'', ''b.png'', ''c.png'']
      else if p = [''data'', ''train'', ''covid-19''] then Inr [''d.png'']
      else if p = [''data'', ''test'', ''normal''] then Inr [''e.png'', ''f.png'']
      else if p = [''data'', ''test'', ''covid-19''] then Inr [''g.png'']
      else Inl FileNotFoundError)"

section \<open>Properties of the transfer-learning model\<close>

lemma all_flags_set_trainable: "all_flags v (set_trainable v l)"
  by (induction v l rule: set_trainable.induct) (simp add: list_all_iff)

lemma trainable_set_trainable: "trainable (set_trainable v l) = v"
  by (cases l) simp

lemma layers_set_trainable: "layers (set_trainable v l) = map (set_trainable v) (layers l)"
  by (cases l) simp

lemma frozen_no_trainable_weights: "\<not> trainable l \<Longrightarrow> trainable_weights l = []"
  by (cases l) simp

lemma length_slice_to: "0 \<le> k \<Longrightarrow> k \<le> int (length xs) \<Longrightarrow> length (slice_to xs k) = nat k"
  by (simp add: slice_to_def)

lemma classifier_fit_linear:
  "rn_classifier (snd (fit_linear_classifier fit m)) = rn_classifier m"
  by (simp add: fit_linear_classifier_def Let_def)

lemma classifier_fine_tune: "rn_classifier (snd (fine_tune fit m k)) = rn_classifier m"
  by (simp add: fine_tune_def Let_def)

lemma reachable_classifier_trainable: "reachable m \<Longrightarrow> all_flags True (rn_classifier m)"
proof (induction rule: reachable.induct)
  case (init app load_ok n_classes name weights m)
  then show ?case
    by (auto simp: ResNet50_def Let_def split: if_splits)
next
  case (linear m fit)
  then show ?case by (simp add: classifier_fit_linear)
next
  case (tune m fit k)
  then show ?case by (simp add: classifier_fine_tune)
qed


lemma nth_freeze:
  assumes "0 \<le> k" "k \<le> int (length ls)" "i < length ls"
  shows "(map (set_trainable False) (slice_to (map (set_trainable True) ls) k)
            @ drop (length (slice_to (map (set_trainable True) ls) k))
                (map (set_trainable True) ls)) ! i
         = (if i < nat k then set_trainable False (set_trainable True (ls ! i))
            else set_trainable True (ls ! i))"
  using assms by (auto simp: slice_to_def nth_append min_def)

lemma sample_resnet50_built:
  "ResNet50 sample_backbone (\<lambda>_. True) 3 ''resnet50'' (Some ''imagenet'') = Inr sample_resnet50"
  by (simp add: sample_resnet50_def ResNet50_def Let_def)

lemma sample_resnet50_layers:
  "layers (rn_feature_extractor sample_resnet50)
     = [Layer ''rescaling'' True [] [], sample_backbone (Some ''imagenet'')]"
  by (simp add: sample_resnet50_def ResNet50_def Let_def)

text \<open>
  Claim C1. The claim: a ResNet50 model built from pretrained weights runs its backbone
  in inference mode on every call, whatever \<^verbatim>\<open>training\<close> the caller passes. The code
  does the opposite. A model built with \<^verbatim>\<open>weights='imagenet'\<close> hands the caller's
  \<^verbatim>\<open>training=True\<close> on to the feature extractor, and a model built from scratch
  (\<^verbatim>\<open>weights=None\<close>) forces \<^verbatim>\<open>training=False\<close>: the test on \<^verbatim>\<open>_from_scratch\<close> in
  \<^verbatim>\<open>ResNet50.call\<close> is inverted. The sibling \<^verbatim>\<open>COVIDNet.call\<close> passes
  \<^verbatim>\<open>training=self._from_scratch\<close>, which is \<^verbatim>\<open>False\<close> for a pretrained model.
\<close>

theorem resnet50_pretrained_backbone_training:
  "map_sum id (\<lambda>m. rn_call_training m (Some True))
     (ResNet50 app load_ok 3 ''resnet50'' (Some ''imagenet'')) = Inr (Some True)
   \<and> map_sum id (\<lambda>m. rn_call_training m (Some True))
     (ResNet50 app load_ok 3 ''resnet50'' None) = Inr (Some False)
   \<and> cn_call_training \<lparr> cn_name = ''covidnet'', cn_image_shape = (224, 224, 3),
        cn_from_scratch = False, cn_feature_extractor = fe, cn_classifier = cl \<rparr> (Some True)
      = Some False"
  by (simp add: ResNet50_def rn_call_training_def cn_call_training_def Let_def)

text \<open>
  What \<^verbatim>\<open>fine_tune\<close> checks and what it freezes, in terms of the list it works on,
  \<^verbatim>\<open>self.feature_extractor.layers\<close>: it raises exactly when \<^verbatim>\<open>fine_tune_at\<close> is greater
  than the length of that list, and otherwise the entries of that list before the
  index are frozen and those from the index on are trainable, each with everything
  nested in it. After \<^verbatim>\<open>fit_linear_classifier\<close> the whole feature extractor is frozen.
\<close>

lemma fine_tune_checks_wrapper:
  "(isl (fst (fine_tune fit m k)) \<longleftrightarrow> int (length (layers (rn_feature_extractor m))) < k)
     \<and> (int (length (layers (rn_feature_extractor m))) < k
           \<longrightarrow> fine_tune fit m k = (Inl ValueError, m))
     \<and> (k \<le> int (length (layers (rn_feature_extractor m)))
           \<longrightarrow> fst (fine_tune fit m k) = Inr (fit (snd (fine_tune fit m k))))"
  by (simp add: fine_tune_def Let_def)

lemma fine_tune_freezes_wrapper:
  fixes fit :: "resnet50 \<Rightarrow> 'h" and fit' :: "resnet50 \<Rightarrow> 'g"
  assumes "reachable m" and "0 \<le> k" and "k \<le> int (length (layers (rn_feature_extractor m)))"
  shows "all_flags False (rn_feature_extractor (snd (fit_linear_classifier fit m)))
     \<and> trainable_weights (rn_feature_extractor (snd (fit_linear_classifier fit m))) = []
     \<and> fst (fine_tune fit' m k) = Inr (fit' (snd (fine_tune fit' m k)))
     \<and> length (layers (rn_feature_extractor (snd (fine_tune fit' m k))))
         = length (layers (rn_feature_extractor m))
     \<and> (\<forall>i < length (layers (rn_feature_extractor m)).
          all_flags (nat k \<le> i) (layers (rn_feature_extractor (snd (fine_tune fit' m k))) ! i))
     \<and> trainable (rn_feature_extractor (snd (fine_tune fit' m k)))
     \<and> all_flags True (rn_classifier (snd (fine_tune fit' m k)))"
proof -
  obtain n t ws ls where fe: "rn_feature_extractor m = Layer n t ws ls"
    by (cases "rn_feature_extractor m")
  have ls: "layers (rn_feature_extractor m) = ls" by (simp add: fe)
  have k2: "k \<le> int (length ls)" using assms(3) ls by simp
  have a: "all_flags False (rn_feature_extractor (snd (fit_linear_classifier fit m)))"
    by (simp add: fit_linear_classifier_def Let_def all_flags_set_trainable)
  have b: "trainable_weights (rn_feature_extractor (snd (fit_linear_classifier fit m))) = []"
    by (simp add: fit_linear_classifier_def Let_def frozen_no_trainable_weights
        trainable_set_trainable)
  have c: "fst (fine_tune fit' m k) = Inr (fit' (snd (fine_tune fit' m k)))"
    using assms(3) by (simp add: fine_tune_def Let_def)
  have fe': "rn_feature_extractor (snd (fine_tune fit' m k))
      = Layer n True ws (map (set_trainable False) (slice_to (map (set_trainable True) ls) k)
            @ drop (length (slice_to (map (set_trainable True) ls) k))
                (map (set_trainable True) ls))"
    using k2 by (simp add: fine_tune_def Let_def fe freeze_bottom_def)
  have d: "length (layers (rn_feature_extractor (snd (fine_tune fit' m k)))) = length ls"
    using assms(2) k2 by (simp add: fe' length_slice_to)
  have e: "all_flags (nat k \<le> i) (layers (rn_feature_extractor (snd (fine_tune fit' m k))) ! i)"
    if "i < length ls" for i
    using nth_freeze[OF assms(2) k2 that] all_flags_set_trainable[of False]
      all_flags_set_trainable[of True]
    by (simp add: fe')
  have f: "all_flags True (rn_classifier (snd (fine_tune fit' m k)))"
    using reachable_classifier_trainable[OF assms(1)] by (simp add: classifier_fine_tune)
  have g: "trainable (rn_feature_extractor (snd (fine_tune fit' m k)))"
    by (simp add: fe')
  show ?thesis using a b c d e f g ls by simp
qed

lemma pretrained_built:
  "ResNet50 app load_ok n name (Some ''imagenet'') =
     Inr \<lparr> rn_name = name, rn_image_shape = (224, 224, 3), rn_n_classes = n,
           rn_from_scratch = False,
           rn_feature_extractor =
             Layer ''feature_extractor'' True []
               [Layer ''rescaling'' True [] [], app (Some ''imagenet'')],
           rn_classifier =
             Layer ''classifier'' True []
               [Layer ''global_average_pooling2d'' True [] [],
                Layer ''dense'' True [''kernel'', ''bias''] []] \<rparr>"
  by (simp add: ResNet50_def Let_def)

lemma fine_tune_at_1:
  "rn_backbone (snd (fine_tune fit (projr (ResNet50 app load_ok n name (Some ''imagenet''))) 1))
     = set_trainable True (app (Some ''imagenet''))"
  by (simp add: pretrained_built fine_tune_def Let_def freeze_bottom_def slice_to_def
      rn_backbone_def)

lemma fine_tune_at_2:
  "rn_backbone (snd (fine_tune fit (projr (ResNet50 app load_ok n name (Some ''imagenet''))) 2))
     = set_trainable False (set_trainable True (app (Some ''imagenet'')))"
  by (simp add: pretrained_built fine_tune_def Let_def freeze_bottom_def slice_to_def
      rn_backbone_def)

text \<open>
  Claim C3. The claim: \<^verbatim>\<open>fine_tune\<close> raises exactly when \<^verbatim>\<open>fine_tune_at\<close> is greater than
  the number of layers of the backbone, and proceeds for every index in range. The
  code compares the index with \<^verbatim>\<open>len(self.feature_extractor.layers)\<close>, and the feature
  extractor is the \<^verbatim>\<open>Sequential\<close> of the rescaling layer and the whole network: for every
  model the constructor builds, whatever the network, \<^verbatim>\<open>fine_tune\<close> raises exactly when
  the index is greater than 2. On the sample model, whose backbone has four layers,
  the index 3 is in range for the backbone and is refused with \<^verbatim>\<open>ValueError\<close>, the model
  left as it was.
\<close>

theorem fine_tune_bound_is_wrapper_length:
  "(isl (fst (fine_tune fit (projr (ResNet50 app load_ok n name (Some ''imagenet''))) k))
      \<longleftrightarrow> 2 < k)
   \<and> length (layers (rn_backbone sample_resnet50)) = 4
   \<and> fine_tune (\<lambda>_. ()) sample_resnet50 3 = (Inl ValueError, sample_resnet50)"
  by (simp add: pretrained_built fine_tune_def Let_def sample_resnet50_def rn_backbone_def
      sample_backbone_def)

text \<open>
  Claim C4. The claim: after \<^verbatim>\<open>fine_tune\<close> with a valid index \<^verbatim>\<open>m\<close> the backbone layers
  before \<^verbatim>\<open>m\<close> are frozen and those at \<^verbatim>\<open>m\<close> or later are trainable. The code freezes
  \<^verbatim>\<open>self.feature_extractor.layers[:fine_tune_at]\<close>, a prefix of the list of the rescaling
  layer and the whole network. For every model the constructor builds, after
  \<^verbatim>\<open>fine_tune\<close> at 1 every layer of the backbone is trainable, the one at index 0
  included, and after \<^verbatim>\<open>fine_tune\<close> at 2 every layer of the backbone is frozen, those
  at index 2 and later included; on the sample model the flags of the four backbone
  layers are listed. The half of the claim about the linear probe holds: after
  \<^verbatim>\<open>fit_linear_classifier\<close> the whole feature extractor is frozen and has no trainable
  weight.
\<close>

theorem fine_tune_splits_wrapper_not_backbone:
  "all_flags True
     (rn_backbone (snd (fine_tune fit (projr (ResNet50 app load_ok n name (Some ''imagenet''))) 1)))
   \<and> all_flags False
     (rn_backbone (snd (fine_tune fit (projr (ResNet50 app load_ok n name (Some ''imagenet''))) 2)))
   \<and> map trainable (layers (rn_backbone (snd (fine_tune (\<lambda>_. ()) sample_resnet50 1))))
       = [True, True, True, True]
   \<and> map trainable (layers (rn_backbone (snd (fine_tune (\<lambda>_. ()) sample_resnet50 2))))
       = [False, False, False, False]
   \<and> all_flags False (rn_feature_extractor (snd (fit_linear_classifier fit' m)))
   \<and> trainable_weights (rn_feature_extractor (snd (fit_linear_classifier fit' m))) = []"
proof -
  have a: "all_flags True
     (rn_backbone (snd (fine_tune fit (projr (ResNet50 app load_ok n name (Some ''imagenet''))) 1)))"
    by (simp add: fine_tune_at_1 all_flags_set_trainable)
  have b: "all_flags False
     (rn_backbone (snd (fine_tune fit (projr (ResNet50 app load_ok n name (Some ''imagenet''))) 2)))"
    by (simp add: fine_tune_at_2 all_flags_set_trainable)
  have c: "map trainable (layers (rn_backbone (snd (fine_tune (\<lambda>_. ()) sample_resnet50 1))))
       = [True, True, True, True]"
    by (simp add: sample_resnet50_def fine_tune_at_1 sample_backbone_def)
  have d: "map trainable (layers (rn_backbone (snd (fine_tune (\<lambda>_. ()) sample_resnet50 2))))
       = [False, False, False, False]"
    by (simp add: sample_resnet50_def fine_tune_at_2 sample_backbone_def)
  have e: "all_flags False (rn_feature_extractor (snd (fit_linear_classifier fit' m)))"
    by (simp add: fit_linear_classifier_def Let_def all_flags_set_trainable)
  have f: "trainable_weights (rn_feature_extractor (snd (fit_linear_classifier fit' m))) = []"
    by (simp add: fit_linear_classifier_def Let_def frozen_no_trainable_weights
        trainable_set_trainable)
  show ?thesis using a b c d e f by simp
qed

section \<open>Properties of the custom network\<close>

lemma replicate_numeral: "replicate (numeral k) x = x # replicate (pred_numeral k) x"
  by (simp add: numeral_eq_Suc)

lemmas shape_defs = cn_call_def tf_reshape_def COVIDNetBlock_init_def pepx_call_def
  window_shape_def conv_output_length_def add_def replicate_numeral Let_def

lemma covidnet_built:
  "COVIDNet name None =
     Inr \<lparr> cn_name = name, cn_image_shape = (224, 224, 3), cn_from_scratch = True,
           cn_feature_extractor = Sequential
             [Rescaling, Sequential [Conv2D 64 7 2 Same, BatchNormalization, ReLU],
              COVIDNetBlock_init 256 3, COVIDNetBlock_init 512 4,
              COVIDNetBlock_init 1024 5, COVIDNetBlock_init 2048 3],
           cn_classifier = Sequential
             [Flatten, Dense 1024 Relu, Dense 1024 Relu, Dense 3 Softmax] \<rparr>"
  by (simp add: COVIDNet_def Let_def shape_defs)

lemma exp_sum_pos: "z \<noteq> [] \<Longrightarrow> 0 < sum_list (map exp (z :: real list))"
  by (induction z rule: list_nonempty_induct) (simp_all add: add_pos_pos)

lemma sum_list_softmax: "z \<noteq> [] \<Longrightarrow> sum_list (softmax z) = 1"
proof -
  assume nz: "z \<noteq> []"
  have "sum_list (map (\<lambda>x. exp x / c) z) = sum_list (map exp z) / c" for c :: real
    by (induction z) (simp_all add: add_divide_distrib)
  then show ?thesis using exp_sum_pos[OF nz] by (simp add: softmax_def)
qed

lemma softmax_pos: "p \<in> set (softmax z) \<Longrightarrow> 0 < p"
proof -
  assume p: "p \<in> set (softmax z)"
  then have nz: "z \<noteq> []" by (auto simp: softmax_def)
  from p exp_sum_pos[OF nz] show ?thesis by (auto simp: softmax_def)
qed


text \<open>
  Claim C8. Constructing COVIDNet raises \<^verbatim>\<open>NotImplementedError\<close> exactly when the
  \<^verbatim>\<open>weights\<close> argument is not \<^verbatim>\<open>None\<close>, the default \<^verbatim>\<open>'imagenet'\<close> included, and the
  check comes before any layer is built; with \<^verbatim>\<open>weights=None\<close> the construction, its
  forward pass on the symbolic input included, succeeds.
\<close>

theorem covidnet_weights_not_implemented:
  "(COVIDNet name weights = Inl NotImplementedError \<longleftrightarrow> weights \<noteq> None)
   \<and> (isl (COVIDNet name weights) \<longleftrightarrow> weights \<noteq> None)
   \<and> COVIDNet ''covidnet'' (Some ''imagenet'') = Inl NotImplementedError"
proof (cases weights)
  case None
  then show ?thesis by (simp add: covidnet_built) (simp add: COVIDNet_def)
next
  case (Some a)
  then show ?thesis by (simp add: COVIDNet_def)
qed

text \<open>
  Claim C2, as the code has it. The constructor takes no class count, and the last
  layer of the classifier is \<^verbatim>\<open>Dense(3, activation='softmax')\<close>: for every input batch
  of shape \<^verbatim>\<open>(n, 224, 224, 3)\<close> the output has shape \<^verbatim>\<open>(n, 3)\<close>. A softmax over the three
  pre-activations of a row, computed over the reals, is a probability distribution: its
  entries are positive and sum to 1.
\<close>

theorem covidnet_output_three_classes:
  assumes "COVIDNet name None = Inr m" and "length z = 3"
  shows "cn_call m [Some n, Some 224, Some 224, Some 3] = Inr [Some n, Some 3]
     \<and> cn_classifier m = Sequential [Flatten, Dense 1024 Relu, Dense 1024 Relu, Dense 3 Softmax]
     \<and> sum_list (apply_activation Softmax z) = 1
     \<and> (\<forall>p \<in> set (apply_activation Softmax z). 0 < p)"
proof -
  from assms(1) have m: "m =
      \<lparr> cn_name = name, cn_image_shape = (224, 224, 3), cn_from_scratch = True,
        cn_feature_extractor = Sequential
          [Rescaling, Sequential [Conv2D 64 7 2 Same, BatchNormalization, ReLU],
           COVIDNetBlock_init 256 3, COVIDNetBlock_init 512 4,
           COVIDNetBlock_init 1024 5, COVIDNetBlock_init 2048 3],
        cn_classifier = Sequential
          [Flatten, Dense 1024 Relu, Dense 1024 Relu, Dense 3 Softmax] \<rparr>"
    by (simp add: covidnet_built)
  have a: "cn_call m [Some n, Some 224, Some 224, Some 3] = Inr [Some n, Some 3]"
    by (simp add: m shape_defs)
  have b: "cn_classifier m
      = Sequential [Flatten, Dense 1024 Relu, Dense 1024 Relu, Dense 3 Softmax]"
    by (simp add: m)
  from assms(2) have nz: "z \<noteq> []" by auto
  show ?thesis using a b sum_list_softmax[OF nz] softmax_pos by simp
qed

text \<open>
  Witness for C2 as amended: a batch of 8 images, and the row of pre-activations
  \<^verbatim>\<open>[0, 0, 0]\<close>.
\<close>

theorem covidnet_output_three_classes_witness:
  "COVIDNet ''covidnet'' None = Inr (projr (COVIDNet ''covidnet'' None))
   \<and> length [0, 0, 0 :: real] = 3
   \<and> cn_call (projr (COVIDNet ''covidnet'' None)) [Some 8, Some 224, Some 224, Some 3]
       = Inr [Some 8, Some 3]
   \<and> sum_list (apply_activation Softmax [0, 0, 0]) = 1"
proof -
  have c: "COVIDNet ''covidnet'' None = Inr (projr (COVIDNet ''covidnet'' None))"
    by (simp add: covidnet_built)
  have l: "length [0, 0, 0 :: real] = 3" by simp
  from covidnet_output_three_classes[OF c l, of 8] c l show ?thesis by simp
qed

text \<open>
  Counterexample to C2 as stated: for a problem with two classes the claim wants an
  output of shape \<^verbatim>\<open>(1, 2)\<close> on one image; the only model the constructor builds answers
  with shape \<^verbatim>\<open>(1, 3)\<close>.
\<close>

theorem covidnet_class_count_counterexample:
  "cn_call (projr (COVIDNet ''covidnet'' None)) [Some 1, Some 224, Some 224, Some 3]
     = Inr [Some 1, Some 3]
   \<and> cn_call (projr (COVIDNet ''covidnet'' None)) [Some 1, Some 224, Some 224, Some 3]
     \<noteq> Inr [Some 1, Some 2]"
  by (simp add: covidnet_built shape_defs)



section \<open>Properties of the class weights\<close>

lemma class_weights_loop_result:
  assumes "n_classes info \<noteq> 0" and "\<forall>(c, l) \<in> set rest. 1 \<le> class_count info l"
  shows "class_weights_loop info rest cw
     = Inr (\<lambda>l. if l \<in> snd ` set rest then Some (class_weight info l) else cw l)"
  using assms(2)
proof (induction rest arbitrary: cw)
  case Nil
  then show ?case by simp
next
  case (Cons a rest)
  obtain c l where a: "a = (c, l)" by (cases a)
  from Cons.prems a have pos: "1 \<le> class_count info l" 
    and rest: "\<forall>(c, l) \<in> set rest. 1 \<le> class_count info l" by auto
  from pos have nz: "length (filter (\<lambda>x. x = l) (labels info)) \<noteq> 0"
    unfolding class_count_def by linarith
  show ?case
    using nz assms(1) Cons.IH[OF rest]
    by (auto simp: a Let_def class_weight_def class_count_def fun_eq_iff)
qed

lemma weighted_sum:
  assumes "n_classes info \<noteq> 0" and "\<forall>(c, l) \<in> set cl. 1 \<le> class_count info l"
  shows "(\<Sum>(c, l) \<leftarrow> cl. class_weight info l * of_nat (class_count info l))
     = of_nat (length cl) * (of_int (n_images info) / of_int (n_classes info))"
  using assms(2)
proof (induction cl)
  case Nil
  then show ?case by simp
next
  case (Cons a cl)
  obtain c l where a: "a = (c, l)" by (cases a)
  from Cons.prems a have pos: "class_count info l \<noteq> 0" 
    and rest: "\<forall>(c, l) \<in> set cl. 1 \<le> class_count info l" by auto
  have "class_weight info l * of_nat (class_count info l)
      = of_int (n_images info) / of_int (n_classes info)"
    using pos by (simp add: class_weight_def)
  then show ?case using Cons.IH[OF rest] by (simp add: a distrib_right add_divide_distrib)
qed

lemma toy_counts:
  "class_count toy_info 0 = 10" "class_count toy_info 1 = 100" "class_count toy_info 2 = 50"
  by (simp_all add: class_count_def toy_info_def)

text \<open>
  Claim C5. For a training dataset whose \<^verbatim>\<open>n_classes\<close> is the number \<^verbatim>\<open>k\<close> of its classes,
  with at least one class and at least one sample of each, \<^verbatim>\<open>get_class_weights\<close> returns
  a dictionary that gives each class label the weight \<^verbatim>\<open>(1/c) * (T/k)\<close>, for the
  sample count \<^verbatim>\<open>c\<close> of the class and the total \<^verbatim>\<open>T\<close> in \<^verbatim>\<open>n_images\<close>; the sum over the
  classes of weight times sample count is \<^verbatim>\<open>T\<close>. The arithmetic is exact (rational
  numbers); the Python code computes the same expression in floating point.
\<close>

theorem class_weights_formula:
  assumes "n_classes info = int (length (class_labels info))"
    and "class_labels info \<noteq> []"
    and "\<forall>(c, l) \<in> set (class_labels info). 1 \<le> class_count info l"
  shows "\<exists>cw. get_class_weights info = Inr cw
     \<and> (\<forall>(c, l) \<in> set (class_labels info).
          cw l = Some ((1 / of_nat (class_count info l))
                        * (of_int (n_images info) / of_int (n_classes info))))
     \<and> (\<Sum>(c, l) \<leftarrow> class_labels info. the (cw l) * of_nat (class_count info l))
          = of_int (n_images info)"
proof -
  from assms(1,2) have k: "n_classes info \<noteq> 0" by simp
  define cw where "cw = (\<lambda>l. if l \<in> snd ` set (class_labels info)
                              then Some (class_weight info l) else None)"
  have res: "get_class_weights info = Inr cw"
    unfolding get_class_weights_def cw_def
    by (rule class_weights_loop_result[OF k assms(3)])
  have each: "\<forall>(c, l) \<in> set (class_labels info). cw l = Some (class_weight info l)"
    by (force simp: cw_def)
  have "(\<Sum>(c, l) \<leftarrow> class_labels info. the (cw l) * of_nat (class_count info l))
      = (\<Sum>(c, l) \<leftarrow> class_labels info. class_weight info l * of_nat (class_count info l))"
    using each by (intro arg_cong[where f=sum_list] map_cong) auto
  also have "\<dots> = of_nat (length (class_labels info))
                    * (of_int (n_images info) / of_int (n_classes info))"
    by (rule weighted_sum[OF k assms(3)])
  also have "\<dots> = of_int (n_images info)"
    using k assms(1) by simp
  finally have total: "(\<Sum>(c, l) \<leftarrow> class_labels info. the (cw l) * of_nat (class_count info l))
      = of_int (n_images info)" .
  from res each total show ?thesis by (auto simp: class_weight_def)
qed

text \<open>
  Witness for C5: the toy dataset of the specification, with counts 10, 100 and 50 and
  \<^verbatim>\<open>T = 160\<close>, gets the weights 160/30, 160/300 and 160/150.
\<close>

theorem class_weights_formula_witness:
  "n_classes toy_info = int (length (class_labels toy_info))
   \<and> class_labels toy_info \<noteq> []
   \<and> class_count toy_info 0 = 10 \<and> class_count toy_info 1 = 100 \<and> class_count toy_info 2 = 50
   \<and> map_sum id (\<lambda>cw. [cw 0, cw 1, cw 2]) (get_class_weights toy_info)
       = Inr [Some (160 / 30), Some (160 / 300), Some (160 / 150)]
   \<and> (160 / 30) * 10 + (160 / 300) * 100 + (160 / 150) * 50 = (160 :: rat)"
proof -
  have a: "n_classes toy_info = int (length (class_labels toy_info))"
    by (simp add: toy_info_def)
  have b: "class_labels toy_info \<noteq> []" by (simp add: toy_info_def)
  have c: "\<forall>(c, l) \<in> set (class_labels toy_info). 1 \<le> class_count toy_info l"
    by (simp add: toy_info_def toy_counts[unfolded toy_info_def])
  from class_weights_formula[OF a b c] obtain cw where
    res: "get_class_weights toy_info = Inr cw"
    and each: "\<forall>(c, l) \<in> set (class_labels toy_info).
          cw l = Some ((1 / of_nat (class_count toy_info l))
                        * (of_int (n_images toy_info) / of_int (n_classes toy_info)))"
    by blast
  from each have "cw 0 = Some (160 / 30)" "cw 1 = Some (160 / 300)" "cw 2 = Some (160 / 150)"
    by (simp_all add: toy_info_def toy_counts[unfolded toy_info_def])
  with res a b toy_counts show ?thesis by simp
qed


section \<open>Properties of the output directories\<close>

declare path_mkdir.simps [simp del]

lemma wf_ancestors:
  "wf_fs fs \<Longrightarrow> fs p \<noteq> None \<Longrightarrow> 0 < k \<Longrightarrow> k \<le> length p \<Longrightarrow> fs (take k p) \<noteq> None"
proof (induction p arbitrary: k rule: rev_induct)
  case Nil
  then show ?case by simp
next
  case (snoc x q)
  show ?case
  proof (cases "k \<le> length q")
    case True
    from snoc.prems(1,2) have "is_dir fs q" by (auto simp: wf_fs_def)
    with True snoc.prems(3) have "fs q \<noteq> None" by (auto simp: is_dir_def)
    from snoc.IH[OF snoc.prems(1) this snoc.prems(3) True] True show ?thesis by simp
  next
    case False
    with snoc.prems(4) have "k = length (q @ [x])" by simp
    with snoc.prems(2) show ?thesis by simp
  qed
qed

lemma wf_prefix_exists:
  assumes "wf_fs fs" "fs p \<noteq> None" "prefix r p" "r \<noteq> []"
  shows "fs r \<noteq> None"
proof -
  from assms(3) have r: "r = take (length r) p" and le: "length r \<le> length p"
    by (auto simp: prefix_def)
  from assms(4) have "0 < length r" by simp
  from wf_ancestors[OF assms(1,2) this le] r show ?thesis by simp
qed

lemma no_file_above_butlast: "no_file_above fs (q @ [x]) \<Longrightarrow> no_file_above fs q"
proof -
  assume a: "no_file_above fs (q @ [x])"
  have "fs (take k q) \<noteq> Some File" if "k \<le> length q" for k
    using a[unfolded no_file_above_def, rule_format, of k] that by simp
  then show ?thesis by (simp add: no_file_above_def)
qed

lemma no_file_above_self: "no_file_above fs q \<Longrightarrow> fs q \<noteq> Some File"
  using no_file_above_def[of fs q] by (auto dest: spec[of _ "length q"])

lemma mkdir_parents:
  "wf_fs fs \<Longrightarrow> no_file_above fs q \<Longrightarrow> q \<noteq> [] \<Longrightarrow> fs q = None
     \<Longrightarrow> path_mkdir fs q True eo = (None, with_parents fs q)"
proof (induction q arbitrary: eo rule: rev_induct)
  case Nil
  then show ?case by simp
next
  case (snoc x q)
  show ?case
  proof (cases "is_dir fs q")
    case True
    have anc: "fs r \<noteq> None" if "prefix r q" "r \<noteq> []" for r
    proof (cases "q = []")
      case True
      with that show ?thesis by simp
    next
      case False
      with \<open>is_dir fs q\<close> have "fs q \<noteq> None" by (simp add: is_dir_def)
      from wf_prefix_exists[OF snoc.prems(1) this that] show ?thesis .
    qed
    have eq: "fs(q @ [x] \<mapsto> Dir) = with_parents fs (q @ [x])"
      using anc snoc.prems(4) by (auto simp: with_parents_def fun_eq_iff)
    have "os_mkdir fs (q @ [x]) = Inr (fs(q @ [x] \<mapsto> Dir))"
      using True snoc.prems(4) by (simp add: os_mkdir_def)
    then show ?thesis by (subst path_mkdir.simps) (simp add: eq)
  next
    case False
    then have qne: "q \<noteq> []" and nd: "fs q \<noteq> Some Dir" by (auto simp: is_dir_def)
    have nfq: "no_file_above fs q" by (rule no_file_above_butlast[OF snoc.prems(2)])
    from no_file_above_self[OF nfq] nd have qn: "fs q = None" by (cases "fs q") (auto intro: node.exhaust)
    have os1: "os_mkdir fs (q @ [x]) = Inl FileNotFoundError"
      using False qn by (simp add: os_mkdir_def)
    have rec1: "path_mkdir fs q True True = (None, with_parents fs q)"
      by (rule snoc.IH[OF snoc.prems(1) nfq qne qn])
    have dirq: "is_dir (with_parents fs q) q"
      using qne qn by (simp add: is_dir_def with_parents_def)
    have free: "with_parents fs q (q @ [x]) = None"
      using snoc.prems(4) by (simp add: with_parents_def)
    have os2: "os_mkdir (with_parents fs q) (q @ [x]) = Inr ((with_parents fs q)(q @ [x] \<mapsto> Dir))"
      using dirq free by (simp add: os_mkdir_def)
    have rec2: "path_mkdir (with_parents fs q) (q @ [x]) False eo
        = (None, (with_parents fs q)(q @ [x] \<mapsto> Dir))"
      by (subst path_mkdir.simps) (simp add: os2)
    have eq: "(with_parents fs q)(q @ [x] \<mapsto> Dir) = with_parents fs (q @ [x])"
      using snoc.prems(4) by (auto simp: with_parents_def fun_eq_iff)
    show ?thesis
      by (subst path_mkdir.simps) (simp add: os1 rec1 rec2 eq)
  qed
qed


lemma mkdir_single:
  "is_dir fs (butlast q) \<Longrightarrow> q \<noteq> [] \<Longrightarrow> fs q = None
     \<Longrightarrow> path_mkdir fs q False False = (None, fs(q \<mapsto> Dir))"
  by (subst path_mkdir.simps) (simp add: os_mkdir_def)

lemma wf_child_free: "wf_fs fs \<Longrightarrow> p \<noteq> [] \<Longrightarrow> fs p = None \<Longrightarrow> fs (p @ [x]) = None"
proof (rule ccontr)
  assume wf: "wf_fs fs" and "p \<noteq> []" "fs p = None" and "fs (p @ [x]) \<noteq> None"
  from wf[unfolded wf_fs_def, rule_format, of "p @ [x]"] \<open>fs (p @ [x]) \<noteq> None\<close>
  have "is_dir fs p" by simp
  with \<open>p \<noteq> []\<close> \<open>fs p = None\<close> show False by (simp add: is_dir_def)
qed

lemma prepare_paths_fresh:
  assumes wf: "wf_fs fs" and ne: "p \<noteq> []" and free: "fs p = None" and nf: "no_file_above fs p"
  shows "prepare_paths fs p =
     (Inr \<lparr> logs_path = p @ [''logs''], checkpoints_path = p @ [''checkpoints''],
            plots_path = p @ [''training''], models_path = p @ [''models''] \<rparr>,
      (with_parents fs (p @ [''models'']))
        (p @ [''checkpoints''] \<mapsto> Dir, p @ [''training''] \<mapsto> Dir))"
proof -
  let ?fs1 = "with_parents fs (p @ [''models''])"
  let ?fs2 = "?fs1(p @ [''checkpoints''] \<mapsto> Dir)"
  have nd: "\<not> is_dir fs p" using ne free by (simp add: is_dir_def)
  have fm: "fs (p @ [''models'']) = None" by (rule wf_child_free[OF wf ne free])
  have nfm: "no_file_above fs (p @ [''models''])"
  proof -
    have "fs (take k (p @ [''models''])) \<noteq> Some File" if "k \<le> length (p @ [''models''])" for k
    proof (cases "k \<le> length p")
      case True
      with nf show ?thesis by (simp add: no_file_above_def)
    next
      case False
      with that have "take k (p @ [''models'']) = p @ [''models'']" by simp
      with fm show ?thesis by simp
    qed
    then show ?thesis unfolding no_file_above_def by blast
  qed
  have c1: "path_mkdir fs (p @ [''models'']) True False = (None, ?fs1)"
    by (rule mkdir_parents[OF wf nfm _ fm]) simp
  have d1: "is_dir ?fs1 p" using ne free by (simp add: is_dir_def with_parents_def)
  have f1: "?fs1 (p @ [''checkpoints'']) = None"
    using wf_child_free[OF wf ne free, of "''checkpoints''"] by (simp add: with_parents_def)
  have c2: "path_mkdir ?fs1 (p @ [''checkpoints'']) False False = (None, ?fs2)"
    using d1 f1 by (intro mkdir_single) simp_all
  have d2: "is_dir ?fs2 p" using d1 by (simp add: is_dir_def)
  have f2: "?fs2 (p @ [''training'']) = None"
    using wf_child_free[OF wf ne free, of "''training''"] by (simp add: with_parents_def)
  have c3: "path_mkdir ?fs2 (p @ [''training'']) False False
      = (None, ?fs2(p @ [''training''] \<mapsto> Dir))"
    using d2 f2 by (intro mkdir_single) simp_all
  show ?thesis
    using nd by (simp add: prepare_paths_def Let_def c1 c2 c3)
qed

text \<open>
  Claim C7. When the output model directory exists as a directory, the path preparation
  and with it \<^verbatim>\<open>main\<close> fails with \<^verbatim>\<open>FileExistsError\<close>: the file system is unchanged and
  the training is never entered. When nothing exists at the path (in a well-formed file
  system, with no regular file among the directories above it), the preparation
  succeeds: \<^verbatim>\<open>models\<close>, \<^verbatim>\<open>checkpoints\<close> and \<^verbatim>\<open>training\<close> are directories under the
  path in the file system that the training receives, and whatever existed before
  is as it was.
\<close>

theorem pretrain_output_directory:
  "(is_dir fs p \<longrightarrow>
      prepare_paths fs p = (Inl FileExistsError, fs)
      \<and> pretrain_main train fs p = (Inl FileExistsError, fs))
   \<and> (wf_fs fs \<and> p \<noteq> [] \<and> fs p = None \<and> no_file_above fs p \<longrightarrow>
        (\<exists>fs'. prepare_paths fs p =
                 (Inr \<lparr> logs_path = p @ [''logs''], checkpoints_path = p @ [''checkpoints''],
                        plots_path = p @ [''training''], models_path = p @ [''models''] \<rparr>, fs')
           \<and> pretrain_main train fs p =
                 train \<lparr> logs_path = p @ [''logs''], checkpoints_path = p @ [''checkpoints''],
                         plots_path = p @ [''training''], models_path = p @ [''models''] \<rparr> fs'
           \<and> fs' (p @ [''models'']) = Some Dir
           \<and> fs' (p @ [''checkpoints'']) = Some Dir
           \<and> fs' (p @ [''training'']) = Some Dir
           \<and> fs' p = Some Dir
           \<and> (\<forall>q. fs q \<noteq> None \<longrightarrow> fs' q = fs q)))"
proof -
  have exists: "prepare_paths fs p = (Inl FileExistsError, fs)
      \<and> pretrain_main train fs p = (Inl FileExistsError, fs)" if "is_dir fs p"
    using that by (simp add: prepare_paths_def pretrain_main_def)
  have fresh: "\<exists>fs'. prepare_paths fs p =
                 (Inr \<lparr> logs_path = p @ [''logs''], checkpoints_path = p @ [''checkpoints''],
                        plots_path = p @ [''training''], models_path = p @ [''models''] \<rparr>, fs')
           \<and> pretrain_main train fs p =
                 train \<lparr> logs_path = p @ [''logs''], checkpoints_path = p @ [''checkpoints''],
                         plots_path = p @ [''training''], models_path = p @ [''models''] \<rparr> fs'
           \<and> fs' (p @ [''models'']) = Some Dir
           \<and> fs' (p @ [''checkpoints'']) = Some Dir
           \<and> fs' (p @ [''training'']) = Some Dir
           \<and> fs' p = Some Dir
           \<and> (\<forall>q. fs q \<noteq> None \<longrightarrow> fs' q = fs q)"
    if h: "wf_fs fs \<and> p \<noteq> [] \<and> fs p = None \<and> no_file_above fs p"
  proof -
    let ?fs' = "(with_parents fs (p @ [''models'']))
          (p @ [''checkpoints''] \<mapsto> Dir, p @ [''training''] \<mapsto> Dir)"
    from h prepare_paths_fresh[of fs p] have pp: "prepare_paths fs p =
       (Inr \<lparr> logs_path = p @ [''logs''], checkpoints_path = p @ [''checkpoints''],
              plots_path = p @ [''training''], models_path = p @ [''models''] \<rparr>, ?fs')"
      by blast
    have m: "?fs' (p @ [''models'']) = Some Dir"
      using h wf_child_free[of fs p "''models''"] by (simp add: with_parents_def)
    have pd: "?fs' p = Some Dir" using h by (simp add: with_parents_def)
    have old: "\<forall>q. fs q \<noteq> None \<longrightarrow> ?fs' q = fs q"
      using h wf_child_free[of fs p "''checkpoints''"] wf_child_free[of fs p "''training''"]
      by (auto simp: with_parents_def)
    show ?thesis
      apply (rule exI[of _ ?fs'])
      using pp m pd old by (simp add: pretrain_main_def)
  qed
  from exists fresh show ?thesis by blast
qed

text \<open>
  Witness for C7: an existing directory \<^verbatim>\<open>out\<close> is refused; on an empty file system the
  path \<^verbatim>\<open>out/run1\<close> gets its three subdirectories.
\<close>

theorem pretrain_output_directory_witness:
  "is_dir [[''out''] \<mapsto> Dir] [''out'']
   \<and> pretrain_main (\<lambda>paths fs. (Inr (), fs)) [[''out''] \<mapsto> Dir] [''out'']
       = (Inl FileExistsError, [[''out''] \<mapsto> Dir])
   \<and> wf_fs Map.empty \<and> [''out'', ''run1''] \<noteq> [] \<and> Map.empty [''out'', ''run1''] = (None :: node option)
   \<and> no_file_above Map.empty [''out'', ''run1'']
   \<and> fst (prepare_paths Map.empty [''out'', ''run1'']) =
        Inr \<lparr> logs_path = [''out'', ''run1'', ''logs''],
              checkpoints_path = [''out'', ''run1'', ''checkpoints''],
              plots_path = [''out'', ''run1'', ''training''],
              models_path = [''out'', ''run1'', ''models''] \<rparr>
   \<and> snd (prepare_paths Map.empty [''out'', ''run1'']) [''out'', ''run1'', ''models''] = Some Dir
   \<and> snd (prepare_paths Map.empty [''out'', ''run1'']) [''out'', ''run1'', ''checkpoints''] = Some Dir
   \<and> snd (prepare_paths Map.empty [''out'', ''run1'']) [''out'', ''run1'', ''training''] = Some Dir"
proof -
  have d: "is_dir [[''out''] \<mapsto> Dir] [''out'']" by (simp add: is_dir_def)
  have w: "wf_fs Map.empty" by (simp add: wf_fs_def)
  have n: "no_file_above Map.empty [''out'', ''run1'']" by (simp add: no_file_above_def)
  from pretrain_output_directory[of "[[''out''] \<mapsto> Dir]" "[''out'']" "\<lambda>paths fs. (Inr (), fs)"] d
  have a: "pretrain_main (\<lambda>paths fs. (Inr (), fs)) [[''out''] \<mapsto> Dir] [''out'']
       = (Inl FileExistsError, [[''out''] \<mapsto> Dir])" by blast
  from pretrain_output_directory[of Map.empty "[''out'', ''run1'']" "\<lambda>paths fs. (Inr (), fs)"] w n
  obtain fs' where "prepare_paths Map.empty [''out'', ''run1''] =
        (Inr \<lparr> logs_path = [''out'', ''run1''] @ [''logs''],
              checkpoints_path = [''out'', ''run1''] @ [''checkpoints''],
              plots_path = [''out'', ''run1''] @ [''training''],
              models_path = [''out'', ''run1''] @ [''models''] \<rparr>, fs')"
     "fs' ([''out'', ''run1''] @ [''models'']) = Some Dir"
     "fs' ([''out'', ''run1''] @ [''checkpoints'']) = Some Dir"
     "fs' ([''out'', ''run1''] @ [''training'']) = Some Dir"
    by auto
  with d a w n show ?thesis by simp
qed



section \<open>Properties of the learning curves\<close>

lemma startswith_val: "startswith (val_metric m) ''val_''"
  by (simp add: startswith_def val_metric_def)

lemma val_metric_inj: "val_metric m = val_metric m' \<Longrightarrow> m = m'"
  by (simp add: val_metric_def)

lemma values_of_addr: "k \<in> dom (map_of (history h)) \<Longrightarrow> values_of st h k = st (addr_of h k)"
  by (auto simp: values_of_def addr_of_def)

lemma dict_get_addr: "k \<in> dom (map_of (history h)) \<Longrightarrow> dict_get (history h) k = Inr (addr_of h k)"
  by (auto simp: dict_get_def addr_of_def)

lemma addr_in_history: "k \<in> dom (map_of (history h)) \<Longrightarrow> (k, addr_of h k) \<in> set (history h)"
  by (auto simp: addr_of_def dest: map_of_SomeD)

lemma addr_of_inj:
  assumes "distinct (map snd (history h))"
    and "k \<in> dom (map_of (history h))" and "k' \<in> dom (map_of (history h))"
    and "addr_of h k = addr_of h k'"
  shows "k = k'"
proof -
  from assms(1) have inj: "inj_on snd (set (history h))" by (simp add: distinct_map)
  have "(k, addr_of h k) \<in> set (history h)" by (rule addr_in_history[OF assms(2)])
  moreover have "(k', addr_of h k) \<in> set (history h)"
    using addr_in_history[OF assms(3)] assms(4) by simp
  ultimately have "(k, addr_of h k) = (k', addr_of h k)"
    using inj_onD[OF inj, of "(k, addr_of h k)" "(k', addr_of h k)"] by simp
  then show ?thesis by simp
qed

lemma addr_of_disjoint:
  assumes "set (map snd (history h)) \<inter> set (map snd (history ft)) = {}"
    and "k \<in> dom (map_of (history h))" and "k' \<in> dom (map_of (history ft))"
  shows "addr_of h k \<noteq> addr_of ft k'"
proof -
  from addr_in_history[OF assms(2)] have "addr_of h k \<in> set (map snd (history h))" by force
  moreover from addr_in_history[OF assms(3)] have "addr_of ft k' \<in> set (map snd (history ft))"
    by force
  ultimately show ?thesis using assms(1) by (metis IntI empty_iff)
qed

lemma plot_metric_ft:
  assumes "k \<in> dom (map_of (history h))" and "val_metric k \<in> dom (map_of (history h))"
    and "k \<in> dom (map_of (history ft))" and "val_metric k \<in> dom (map_of (history ft))"
    and "addr_of h k \<noteq> addr_of h (val_metric k)"
    and "addr_of h k \<noteq> addr_of ft (val_metric k)"
  shows "\<exists>figs'. plot_metric h (Some ft) sp ep k (st, figs) =
     (None, st(addr_of h k := st (addr_of h k) @ st (addr_of ft k),
               addr_of h (val_metric k) :=
                 st (addr_of h (val_metric k)) @ st (addr_of ft (val_metric k))),
      figs')"
  using assms(5,6)
  by (simp add: plot_metric_def extend_with_ft_def Let_def
      dict_get_addr[OF assms(1)] dict_get_addr[OF assms(2)]
      dict_get_addr[OF assms(3)] dict_get_addr[OF assms(4)])

lemma plot_loop_ft:
  assumes inj: "distinct (map snd (history h))"
    and disj: "set (map snd (history h)) \<inter> set (map snd (history ft)) = {}"
  shows "distinct ks \<Longrightarrow> covered h ft ks \<Longrightarrow>
     \<exists>st' figs'. plot_loop h (Some ft) sp ep ks (st, figs) = (None, st', figs')
        \<and> (\<forall>m \<in> set ks. \<not> startswith m ''val_'' \<longrightarrow>
              st' (addr_of h m) = st (addr_of h m) @ st (addr_of ft m)
              \<and> st' (addr_of h (val_metric m))
                  = st (addr_of h (val_metric m)) @ st (addr_of ft (val_metric m)))
        \<and> (\<forall>a. a \<notin> touched h ks \<longrightarrow> st' a = st a)"
proof (induction ks arbitrary: st figs)
  case Nil
  then show ?case by simp
next
  case (Cons k ks)
  from Cons.prems have dks: "distinct ks" and kn: "k \<notin> set ks" 
    and cov: "covered h ft ks" by (auto simp: covered_def)
  show ?case
  proof (cases "startswith k ''val_''")
    case True
    from Cons.IH[OF dks cov, of st figs] obtain st' figs' where
      r: "plot_loop h (Some ft) sp ep ks (st, figs) = (None, st', figs')"
      and v: "\<forall>m \<in> set ks. \<not> startswith m ''val_'' \<longrightarrow>
              st' (addr_of h m) = st (addr_of h m) @ st (addr_of ft m)
              \<and> st' (addr_of h (val_metric m))
                  = st (addr_of h (val_metric m)) @ st (addr_of ft (val_metric m))"
      and f: "\<forall>a. a \<notin> touched h ks \<longrightarrow> st' a = st a" by blast
    have t: "touched h (k # ks) = touched h ks" using True by (auto simp: touched_def)
    show ?thesis using True r v f t by auto
  next
    case False
    let ?vk = "val_metric k"
    from Cons.prems(2) False have dom:
      "k \<in> dom (map_of (history h))" "?vk \<in> dom (map_of (history h))"
      "k \<in> dom (map_of (history ft))" "?vk \<in> dom (map_of (history ft))"
      by (auto simp: covered_def)
    have kvk: "k \<noteq> ?vk" using False startswith_val[of k] by auto
    have ne1: "addr_of h k \<noteq> addr_of h ?vk"
      using addr_of_inj[OF inj dom(1) dom(2)] kvk by blast
    have ne2: "addr_of h k \<noteq> addr_of ft ?vk"
      by (rule addr_of_disjoint[OF disj dom(1) dom(4)])
    let ?st2 = "st(addr_of h k := st (addr_of h k) @ st (addr_of ft k),
               addr_of h ?vk := st (addr_of h ?vk) @ st (addr_of ft ?vk))"
    from plot_metric_ft[OF dom ne1 ne2, of sp ep st figs] obtain figs2 where
      pm: "plot_metric h (Some ft) sp ep k (st, figs) = (None, ?st2, figs2)" by blast
    from Cons.IH[OF dks cov, of ?st2 figs2] obtain st' figs' where
      r: "plot_loop h (Some ft) sp ep ks (?st2, figs2) = (None, st', figs')"
      and v: "\<forall>m \<in> set ks. \<not> startswith m ''val_'' \<longrightarrow>
              st' (addr_of h m) = ?st2 (addr_of h m) @ ?st2 (addr_of ft m)
              \<and> st' (addr_of h (val_metric m))
                  = ?st2 (addr_of h (val_metric m)) @ ?st2 (addr_of ft (val_metric m))"
      and f: "\<forall>a. a \<notin> touched h ks \<longrightarrow> st' a = ?st2 a" by blast
    have loop: "plot_loop h (Some ft) sp ep (k # ks) (st, figs) = (None, st', figs')"
      using False pm r by simp
    have ft_same: "?st2 (addr_of ft x) = st (addr_of ft x)" if "x \<in> dom (map_of (history ft))" for x
      using addr_of_disjoint[OF disj dom(1) that] addr_of_disjoint[OF disj dom(2) that] by simp
    have rest: "st' (addr_of h m) = st (addr_of h m) @ st (addr_of ft m)
              \<and> st' (addr_of h (val_metric m))
                  = st (addr_of h (val_metric m)) @ st (addr_of ft (val_metric m))"
      if m: "m \<in> set ks" and nv: "\<not> startswith m ''val_''" for m
    proof -
      from cov m nv have dm:
        "m \<in> dom (map_of (history h))" "val_metric m \<in> dom (map_of (history h))"
        "m \<in> dom (map_of (history ft))" "val_metric m \<in> dom (map_of (history ft))"
        by (auto simp: covered_def)
      from m kn have mk: "m \<noteq> k" by auto
      have mvk: "m \<noteq> ?vk" using nv startswith_val[of k] by auto
      have vmk: "val_metric m \<noteq> k" using False startswith_val[of m] by auto
      have vmvk: "val_metric m \<noteq> ?vk" using mk val_metric_inj by blast
      have a1: "addr_of h m \<noteq> addr_of h k" using addr_of_inj[OF inj dm(1) dom(1)] mk by blast
      have a2: "addr_of h m \<noteq> addr_of h ?vk" using addr_of_inj[OF inj dm(1) dom(2)] mvk by blast
      have a3: "addr_of h (val_metric m) \<noteq> addr_of h k"
        using addr_of_inj[OF inj dm(2) dom(1)] vmk by blast
      have a4: "addr_of h (val_metric m) \<noteq> addr_of h ?vk"
        using addr_of_inj[OF inj dm(2) dom(2)] vmvk by blast
      from v m nv have "st' (addr_of h m) = ?st2 (addr_of h m) @ ?st2 (addr_of ft m)"
        and "st' (addr_of h (val_metric m))
                  = ?st2 (addr_of h (val_metric m)) @ ?st2 (addr_of ft (val_metric m))" by blast+
      then show ?thesis
        using a1 a2 a3 a4 ft_same[OF dm(3)] ft_same[OF dm(4)] by simp
    qed
    have nt: "addr_of h k \<notin> touched h ks \<and> addr_of h ?vk \<notin> touched h ks"
    proof -
      have "addr_of h k \<noteq> addr_of h m \<and> addr_of h k \<noteq> addr_of h (val_metric m)
          \<and> addr_of h ?vk \<noteq> addr_of h m \<and> addr_of h ?vk \<noteq> addr_of h (val_metric m)"
        if m: "m \<in> set ks" and nv: "\<not> startswith m ''val_''" for m
      proof -
        from cov m nv have dm:
          "m \<in> dom (map_of (history h))" "val_metric m \<in> dom (map_of (history h))"
          by (auto simp: covered_def)
        from m kn have mk: "k \<noteq> m" by auto
        have b1: "?vk \<noteq> m" using nv startswith_val[of k] by auto
        have b2: "k \<noteq> val_metric m" using False startswith_val[of m] by auto
        have b3: "?vk \<noteq> val_metric m" using mk val_metric_inj by blast
        show ?thesis
          using addr_of_inj[OF inj dom(1) dm(1)] addr_of_inj[OF inj dom(1) dm(2)]
            addr_of_inj[OF inj dom(2) dm(1)] addr_of_inj[OF inj dom(2) dm(2)] mk b1 b2 b3
          by blast
      qed
      then show ?thesis unfolding touched_def by blast
    qed
    have here: "st' (addr_of h k) = st (addr_of h k) @ st (addr_of ft k)
        \<and> st' (addr_of h ?vk) = st (addr_of h ?vk) @ st (addr_of ft ?vk)"
      using nt f ne1 by simp
    have frame: "st' a = st a" if "a \<notin> touched h (k # ks)" for a
    proof -
      from that False have "a \<noteq> addr_of h k" "a \<noteq> addr_of h ?vk" "a \<notin> touched h ks"
        by (auto simp: touched_def)
      with f show ?thesis by simp
    qed
    show ?thesis using loop rest here frame by auto
  qed
qed


lemma plot_metric_none:
  "fst (snd (plot_metric h None sp ep k (st, figs))) = st"
  by (simp add: plot_metric_def extend_with_ft_def split: sum.splits)

lemma plot_loop_none: "fst (snd (plot_loop h None sp ep ks (st, figs))) = st"
proof (induction ks arbitrary: figs)
  case Nil
  then show ?case by simp
next
  case (Cons k ks)
  show ?case
  proof (cases "startswith k ''val_''")
    case True
    then show ?thesis using Cons.IH by simp
  next
    case False
    obtain e st1 figs1 where pm: "plot_metric h None sp ep k (st, figs) = (e, st1, figs1)"
      by (cases "plot_metric h None sp ep k (st, figs)")
    with plot_metric_none[of h sp ep k st figs] have st1: "st1 = st" by simp
    show ?thesis using False pm st1 Cons.IH[of figs1] by (cases e) simp_all
  qed
qed

text \<open>
  Claim C10. With \<^verbatim>\<open>history_ft=None\<close> the call leaves every list as it was, whatever
  else happens. With a \<^verbatim>\<open>history_ft\<close> whose lists are objects different from those of
  \<^verbatim>\<open>history\<close>, a \<^verbatim>\<open>save_path\<close>, a non-empty \<^verbatim>\<open>history.epoch\<close> and the keys the loop looks
  up present, the call returns normally, and afterwards the list that
  \<^verbatim>\<open>history.history\<close> holds for each metric, and for its validation metric, is the list
  from before followed by the fine-tuning values: the lists of the caller's \<^verbatim>\<open>history\<close>
  have been changed in place, and the store is no longer the one from before as soon as
  one list of fine-tuning values is not empty.
\<close>

theorem plot_learning_curves_extends_history:
  assumes "distinct (map fst (history h))" and "distinct (map snd (history h))"
    and "set (map snd (history h)) \<inter> set (map snd (history ft)) = {}"
    and "epoch h \<noteq> []"
    and "\<forall>m \<in> set (plotted_metrics h).
           val_metric m \<in> fst ` set (history h) \<and> m \<in> fst ` set (history ft)
           \<and> val_metric m \<in> fst ` set (history ft)"
  shows "fst (snd (plot_learning_curves st h None save_path)) = st
     \<and> fst (plot_learning_curves st h (Some ft) (Some sp)) = None
     \<and> (\<forall>m \<in> set (plotted_metrics h).
          values_of (fst (snd (plot_learning_curves st h (Some ft) (Some sp)))) h m
            = values_of st h m @ values_of st ft m
          \<and> values_of (fst (snd (plot_learning_curves st h (Some ft) (Some sp)))) h (val_metric m)
            = values_of st h (val_metric m) @ values_of st ft (val_metric m))
     \<and> ((\<exists>m \<in> set (plotted_metrics h). values_of st ft m \<noteq> [])
          \<longrightarrow> fst (snd (plot_learning_curves st h (Some ft) (Some sp))) \<noteq> st)"
proof -
  let ?ks = "map fst (history h)"
  have none: "fst (snd (plot_learning_curves st h None save_path)) = st"
    by (cases save_path) (simp_all add: plot_learning_curves_def plot_loop_none)
  have domh: "dom (map_of (history h)) = fst ` set (history h)"
    by (rule dom_map_of_conv_image_fst)
  have domf: "dom (map_of (history ft)) = fst ` set (history ft)"
    by (rule dom_map_of_conv_image_fst)
  have cov: "covered h ft ?ks"
    unfolding covered_def
  proof (intro ballI impI)
    fix m assume m: "m \<in> set ?ks" and nv: "\<not> startswith m ''val_''"
    then have "m \<in> set (plotted_metrics h)" by (simp add: plotted_metrics_def)
    with assms(5) m show "m \<in> dom (map_of (history h)) \<and> val_metric m \<in> dom (map_of (history h))
        \<and> m \<in> dom (map_of (history ft)) \<and> val_metric m \<in> dom (map_of (history ft))"
      by (simp add: domh domf)
  qed
  from plot_loop_ft[OF assms(2,3) assms(1) cov, of sp "last (epoch h)" st "[]"]
  obtain st' figs' where
    r: "plot_loop h (Some ft) sp (last (epoch h)) ?ks (st, []) = (None, st', figs')"
    and v: "\<forall>m \<in> set ?ks. \<not> startswith m ''val_'' \<longrightarrow>
              st' (addr_of h m) = st (addr_of h m) @ st (addr_of ft m)
              \<and> st' (addr_of h (val_metric m))
                  = st (addr_of h (val_metric m)) @ st (addr_of ft (val_metric m))"
    by blast
  have res: "plot_learning_curves st h (Some ft) (Some sp) = (None, st', figs')"
    using assms(4) r by (simp add: plot_learning_curves_def)
  have vals: "values_of st' h m = values_of st h m @ values_of st ft m
          \<and> values_of st' h (val_metric m)
            = values_of st h (val_metric m) @ values_of st ft (val_metric m)"
    if m: "m \<in> set (plotted_metrics h)" for m
  proof -
    from m have mk: "m \<in> set ?ks" and nv: "\<not> startswith m ''val_''"
      by (simp_all add: plotted_metrics_def)
    from cov mk nv have dm:
      "m \<in> dom (map_of (history h))" "val_metric m \<in> dom (map_of (history h))"
      "m \<in> dom (map_of (history ft))" "val_metric m \<in> dom (map_of (history ft))"
      by (auto simp: covered_def)
    from v mk nv have "st' (addr_of h m) = st (addr_of h m) @ st (addr_of ft m)
        \<and> st' (addr_of h (val_metric m))
            = st (addr_of h (val_metric m)) @ st (addr_of ft (val_metric m))"
      by blast
    then show ?thesis
      by (simp add: values_of_addr[OF dm(1)] values_of_addr[OF dm(2)]
          values_of_addr[OF dm(3)] values_of_addr[OF dm(4)])
  qed
  have changed: "st' \<noteq> st" if "\<exists>m \<in> set (plotted_metrics h). values_of st ft m \<noteq> []"
  proof
    assume eq: "st' = st"
    from that obtain m where m: "m \<in> set (plotted_metrics h)" and ne: "values_of st ft m \<noteq> []"
      by blast
    from vals[OF m] eq have "values_of st h m = values_of st h m @ values_of st ft m" by simp
    with ne show False by simp
  qed
  show ?thesis using none res vals changed by simp
qed

text \<open>
  Witness for C10: after the call the loss of the sample history is \<^verbatim>\<open>[1, 2, 5]\<close> and its
  validation loss \<^verbatim>\<open>[3, 4, 6]\<close>.
\<close>

theorem plot_learning_curves_extends_history_witness:
  "distinct (map fst (history sample_history)) \<and> distinct (map snd (history sample_history))
   \<and> set (map snd (history sample_history)) \<inter> set (map snd (history sample_history_ft)) = {}
   \<and> epoch sample_history \<noteq> []
   \<and> plotted_metrics sample_history = [''loss'']
   \<and> values_of sample_store sample_history ''loss'' = [1, 2]
   \<and> values_of sample_store sample_history ''val_loss'' = [3, 4]
   \<and> fst (plot_learning_curves sample_store sample_history (Some sample_history_ft)
            (Some [''plots''])) = None
   \<and> values_of (fst (snd (plot_learning_curves sample_store sample_history
        (Some sample_history_ft) (Some [''plots''])))) sample_history ''loss'' = [1, 2, 5]
   \<and> values_of (fst (snd (plot_learning_curves sample_store sample_history
        (Some sample_history_ft) (Some [''plots''])))) sample_history ''val_loss'' = [3, 4, 6]
   \<and> fst (snd (plot_learning_curves sample_store sample_history None (Some [''plots''])))
       = sample_store"
proof -
  have a: "distinct (map fst (history sample_history))" by (simp add: sample_history_def)
  have b: "distinct (map snd (history sample_history))" by (simp add: sample_history_def)
  have c: "set (map snd (history sample_history)) \<inter> set (map snd (history sample_history_ft)) = {}"
    by (simp add: sample_history_def sample_history_ft_def)
  have d: "epoch sample_history \<noteq> []" by (simp add: sample_history_def)
  have pm: "plotted_metrics sample_history = [''loss'']"
    by (simp add: plotted_metrics_def sample_history_def startswith_def)
  have e: "\<forall>m \<in> set (plotted_metrics sample_history).
           val_metric m \<in> fst ` set (history sample_history)
           \<and> m \<in> fst ` set (history sample_history_ft)
           \<and> val_metric m \<in> fst ` set (history sample_history_ft)"
    by (simp add: pm) (simp add: sample_history_def sample_history_ft_def val_metric_def)
  note t = plot_learning_curves_extends_history[OF a b c d e, of sample_store "Some [''plots'']" "[''plots'']"]
  have vl: "val_metric ''loss'' = ''val_loss''" by (simp add: val_metric_def)
  have v0: "values_of sample_store sample_history ''loss'' = [1, 2]"
    "values_of sample_store sample_history ''val_loss'' = [3, 4]"
    "values_of sample_store sample_history_ft ''loss'' = [5]"
    "values_of sample_store sample_history_ft ''val_loss'' = [6]"
    by (simp_all add: values_of_def sample_store_def sample_history_def sample_history_ft_def)
  from t a b c d pm v0 vl show ?thesis by simp
qed


section \<open>Properties of the class names\<close>

text \<open>
  In scripts/evaluate.py the list of class names is sorted, so it is the same for
  any two dictionaries with the same keys, in whatever order they were filled.
\<close>

lemma evaluate_class_names_order_independent:
  assumes "distinct (map fst ci1)" and "distinct (map fst ci2)"
    and "set (map fst ci1) = set (map fst ci2)"
  shows "evaluate_class_names ci1 = evaluate_class_names ci2"
  unfolding evaluate_class_names_def
  using assms by (intro sorted_distinct_set_unique) simp_all

lemma sample_sorted: "sort [''normal'', ''covid-19''] = [''covid-19'', ''normal'']"
  by code_simp

lemma sample_examined:
  "examine_data sample_listdir [''data''] =
     Inr \<lparr> target_names = [''normal'', ''covid-19''], num_train = [3, 1], num_test = [1, 2],
           tot_train = 4, tot_test = 3 \<rparr>"
  by (simp add: examine_data_def sample_listdir_def Let_def)

text \<open>
  Claim C6. The claim: the index of a class name does not depend on the order in which
  the file system lists the class directories. The data statistics of train.py take
  \<^verbatim>\<open>target_names\<close> as \<^verbatim>\<open>os.listdir\<close> returns it. In the sample tree the train split lists
  \<^verbatim>\<open>normal\<close> before \<^verbatim>\<open>covid-19\<close> and the test split the other way round: \<^verbatim>\<open>normal\<close>
  gets index 0 where the sorted order gives it index 1, and the test counts \<^verbatim>\<open>[1, 2]\<close>,
  in the order of the test listing, stand under the names in the order of the train
  listing, so the two images of \<^verbatim>\<open>test/normal\<close> are counted for \<^verbatim>\<open>covid-19\<close>. The sorted
  list of scripts/evaluate.py has \<^verbatim>\<open>covid-19\<close> first.
\<close>

theorem train_target_names_follow_listing:
  "map_sum id target_names (examine_data sample_listdir [''data''])
     = Inr [''normal'', ''covid-19'']
   \<and> map_sum id num_train (examine_data sample_listdir [''data'']) = Inr [3, 1]
   \<and> map_sum id num_test (examine_data sample_listdir [''data'']) = Inr [1, 2]
   \<and> name_to_index [''normal'', ''covid-19''] = [(''normal'', 0), (''covid-19'', 1)]
   \<and> name_to_index (sort [''normal'', ''covid-19'']) = [(''covid-19'', 0), (''normal'', 1)]
   \<and> evaluate_class_names [(''normal'', 1), (''covid-19'', 0)] = [''covid-19'', ''normal'']"
  by (simp add: sample_examined sample_sorted name_to_index_def evaluate_class_names_def
      upt_rec[of 0] upt_rec[of 1])


end
